theory Spec2Isabelle
  imports Complex_Main "HOL-Library.DAList"
begin

section \<open>Data model of the role matrix page\<close>

text \<open>
  The page \<^verbatim>\<open>src/pages/roleMatrix.tsx\<close> keeps five collections fetched from the
  server and two modal states. Identifiers are JavaScript numbers that hold integers;
  they are modelled as \<^typ>\<open>int\<close>. A field typed \<^verbatim>\<open>number | null\<close> or declared
  optional (\<^verbatim>\<open>id?: number\<close>) is an \<^typ>\<open>int option\<close>, with \<open>None\<close> for
  \<^verbatim>\<open>null\<close>/\<^verbatim>\<open>undefined\<close>.
\<close>

datatype action = Read | Create | Update | Delete

fun action_str :: "action \<Rightarrow> string" where
  "action_str Read = ''read''"
| "action_str Create = ''create''"
| "action_str Update = ''update''"
| "action_str Delete = ''delete''"

definition ACTIONS :: "action list" where
  "ACTIONS = [Read, Create, Update, Delete]"

record user =
  u_id :: int
  u_name :: string

record role =
  r_id :: int
  r_name :: string

record permission =
  p_id :: "int option"
  p_roleId :: int
  p_moduleId :: int
  p_actions :: "string list"
  p_visibleFields :: "string list option"
  p_editableFields :: "string list option"

record userRole =
  ur_id :: "int option"
  ur_userId :: int
  ur_roleId :: int

text \<open>
  A module's \<^verbatim>\<open>fields?: string[] | string\<close>: absent, an array of names, or a text
  (a JSON document the server did not decode).
\<close>

datatype fieldsValue = FieldsArray "string list" | FieldsString string

record module =
  m_id :: int
  m_name :: string
  m_fields :: "fieldsValue option"

text \<open>
  A JavaScript value as \<^verbatim>\<open>JSON.parse\<close> can return it. The field list of the
  fields editor is typed \<^verbatim>\<open>string[]\<close> but is assigned the result of
  \<^verbatim>\<open>JSON.parse\<close> (typed \<^verbatim>\<open>any\<close>), so at run time it holds any such value.
\<close>

datatype json =
    JNull
  | JBool bool
  | JNum rat
  | JStr string
  | JArr "json list"
  | JObj "(string \<times> json) list"

subsection \<open>Template literals: numbers rendered in decimal\<close>

text \<open>
  The index key is the template literal \<^verbatim>\<open>`${p.roleId}-${p.moduleId}`\<close>. For an
  integer, JavaScript's number-to-string conversion is the decimal numeral with a
  leading minus sign for negative values.
\<close>

definition digit_char :: "nat \<Rightarrow> char" where
  "digit_char d = ''0123456789'' ! d"

function digits :: "nat \<Rightarrow> string" where
  "digits n = (if n < 10 then [digit_char n] else digits (n div 10) @ [digit_char (n mod 10)])"
  by pat_completeness auto
termination
  by (relation "measure (\<lambda>n. n)") auto

declare digits.simps [simp del]

definition num_str :: "int \<Rightarrow> string" where
  "num_str i = (if i < 0 then CHR ''-'' # digits (nat (- i)) else digits (nat i))"

definition perm_key :: "int \<Rightarrow> int \<Rightarrow> string" where
  "perm_key rid mid = num_str rid @ ''-'' @ num_str mid"

subsection \<open>The permission resolver\<close>

text \<open>
  \<^verbatim>\<open>permMap\<close>: a \<^verbatim>\<open>Map\<close> filled by \<^verbatim>\<open>permissions.forEach((p) => m.set(key, p))\<close>;
  a later row with the same key replaces an earlier one.
\<close>

definition permMap :: "permission list \<Rightarrow> (string \<rightharpoonup> permission)" where
  "permMap ps = foldl (\<lambda>m p. m(perm_key (p_roleId p) (p_moduleId p) \<mapsto> p)) Map.empty ps"

text \<open>\<^verbatim>\<open>userRoles.filter((ur) => ur.userId === userId).map((ur) => ur.roleId)\<close>\<close>

definition userRoleIds :: "userRole list \<Rightarrow> int \<Rightarrow> int list" where
  "userRoleIds urs uid = map ur_roleId (filter (\<lambda>ur. ur_userId ur = uid) urs)"

text \<open>\<^verbatim>\<open>roles.filter((r) => ids.includes(r.id))\<close>\<close>

definition userRolesObjects :: "userRole list \<Rightarrow> role list \<Rightarrow> int \<Rightarrow> role list" where
  "userRolesObjects urs rs uid = (let ids = userRoleIds urs uid in filter (\<lambda>r. r_id r \<in> set ids) rs)"

text \<open>
  \<^verbatim>\<open>userHasAction\<close>: the \<^verbatim>\<open>for ... of\<close> loop over the role ids, returning
  \<^verbatim>\<open>true\<close> at the first role whose indexed row lists the action. The test
  \<^verbatim>\<open>perm && perm.actions && perm.actions.includes(action)\<close> reads a field typed
  \<^verbatim>\<open>string[]\<close>, and an array is truthy even when empty.
\<close>

fun hasActionLoop :: "(string \<rightharpoonup> permission) \<Rightarrow> int \<Rightarrow> action \<Rightarrow> int list \<Rightarrow> bool" where
  "hasActionLoop pm mid a [] = False"
| "hasActionLoop pm mid a (rid # rids) =
     (case pm (perm_key rid mid) of
        None \<Rightarrow> hasActionLoop pm mid a rids
      | Some perm \<Rightarrow>
          if action_str a \<in> set (p_actions perm) then True
          else hasActionLoop pm mid a rids)"

definition userHasAction ::
  "permission list \<Rightarrow> userRole list \<Rightarrow> int \<Rightarrow> int \<Rightarrow> action \<Rightarrow> bool" where
  "userHasAction ps urs uid mid a =
     (let roleIds = userRoleIds urs uid in hasActionLoop (permMap ps) mid a roleIds)"

text \<open>
  \<^verbatim>\<open>unionFieldsForUserModule\<close>: two \<^verbatim>\<open>Set<string>\<close> objects filled role by role
  and turned into arrays by \<^verbatim>\<open>Array.from\<close>. A JavaScript \<^verbatim>\<open>Set\<close> iterates in
  insertion order and \<^verbatim>\<open>add\<close> of a member changes nothing, so a set is a list
  without repetition here. An absent field list counts as empty
  (\<^verbatim>\<open>p.visibleFields || []\<close>).
\<close>

definition set_add :: "'a list \<Rightarrow> 'a \<Rightarrow> 'a list" where
  "set_add s x = (if x \<in> set s then s else s @ [x])"

definition or_empty :: "'a list option \<Rightarrow> 'a list" where
  "or_empty v = (case v of None \<Rightarrow> [] | Some xs \<Rightarrow> xs)"

record fieldSets =
  visible :: "string list"
  editable :: "string list"

definition unionStep ::
  "(string \<rightharpoonup> permission) \<Rightarrow> int \<Rightarrow> fieldSets \<Rightarrow> int \<Rightarrow> fieldSets" where
  "unionStep pm mid acc rid =
     (case pm (perm_key rid mid) of
        None \<Rightarrow> acc
      | Some p \<Rightarrow>
          \<lparr> visible = foldl set_add (visible acc) (or_empty (p_visibleFields p)),
            editable = foldl set_add (editable acc) (or_empty (p_editableFields p)) \<rparr>)"

definition unionFieldsForUserModule ::
  "permission list \<Rightarrow> userRole list \<Rightarrow> int \<Rightarrow> int \<Rightarrow> fieldSets" where
  "unionFieldsForUserModule ps urs uid mid =
     (let roleIds = userRoleIds urs uid
      in foldl (unionStep (permMap ps) mid) \<lparr> visible = [], editable = [] \<rparr> roleIds)"

section \<open>Page state, network and effects\<close>

text \<open>
  \<^verbatim>\<open>selectedRoles\<close> is a JavaScript object keyed by role id
  (\<^verbatim>\<open>Record<number, boolean>\<close>): it holds each key once, an assignment to a present
  key keeps the key's place, and a new key goes last. That is an association list with
  distinct keys.
\<close>

record actionModal =
  am_open :: bool
  am_userId :: "int option"
  am_moduleId :: "int option"
  am_action :: "action option"
  am_selectedRoles :: "(int, bool) alist"
  am_userRolesList :: "role list"

record fieldsModal =
  fm_open :: bool
  fm_permId :: "int option"
  fm_moduleId :: "int option"
  fm_roleId :: "int option"
  fm_visibleFields :: "string list"
  fm_editableFields :: "string list"
  fm_allFields :: json

record app =
  users :: "user list"
  modules :: "module list"
  permissions :: "permission list"
  userRoles :: "userRole list"
  roles :: "role list"
  loading :: bool
  fieldsModal :: fieldsModal
  actionModal :: actionModal

text \<open>The five collections that \<^verbatim>\<open>loadAll\<close> fetches.\<close>

record dataset =
  d_users :: "user list"
  d_modules :: "module list"
  d_permissions :: "permission list"
  d_userRoles :: "userRole list"
  d_roles :: "role list"

datatype http_method = GET | POST | PUT | DELETE

record request =
  rq_method :: http_method
  rq_url :: string
  rq_body :: "permission option"

text \<open>
  The server is outside the repository. It is a parameter: a state of any type
  \<open>'srv\<close>, a function saying how a mutating \<^verbatim>\<open>fetch\<close> changes it and whether the
  promise is fulfilled (\<open>False\<close>: rejected, a network error), and a function giving
  what the five \<^verbatim>\<open>apiGet\<close> calls of \<^verbatim>\<open>loadAll\<close> deliver together (\<open>None\<close> when
  one of them is rejected or answers with a status that is not ok, which makes
  \<^verbatim>\<open>apiGet\<close> throw).
\<close>

record 'srv network =
  mutate :: "'srv \<Rightarrow> request \<Rightarrow> 'srv \<times> bool"
  snapshot :: "'srv \<Rightarrow> dataset option"

text \<open>
  What a handler does outside the React state: the requests it issued, in order, the
  errors written by \<^verbatim>\<open>console.error\<close> (each recorded as the request that failed),
  and the texts shown by \<^verbatim>\<open>alert\<close>.
\<close>

record 'srv world =
  server :: 'srv
  requests :: "request list"
  console :: "request list"
  alerts :: "string list"

text \<open>How an \<^verbatim>\<open>async\<close> handler ends: it returns, or its promise is rejected.\<close>

datatype completion = Returned | Threw

definition urlAPi :: string where
  "urlAPi = ''https://node-dummy-roles-and-permissions.onrender.com''"

definition get_request :: "string \<Rightarrow> request" where
  "get_request path = \<lparr> rq_method = GET, rq_url = urlAPi @ path, rq_body = None \<rparr>"

text \<open>\<^verbatim>\<open>await fetch(...)\<close> outside any \<^verbatim>\<open>try\<close>: the flag tells whether it was fulfilled.\<close>

definition awaitFetch :: "'srv network \<Rightarrow> 'srv world \<Rightarrow> request \<Rightarrow> bool \<times> 'srv world" where
  "awaitFetch net w rq =
     (let (srv', ok) = mutate net (server w) rq
      in (ok, w\<lparr> server := srv', requests := requests w @ [rq] \<rparr>))"

text \<open>\<^verbatim>\<open>try { await fetch(...) } catch (e) { console.error(e) }\<close>\<close>

definition tryFetch :: "'srv network \<Rightarrow> 'srv world \<Rightarrow> request \<Rightarrow> 'srv world" where
  "tryFetch net w rq =
     (let (ok, w') = awaitFetch net w rq
      in if ok then w' else w'\<lparr> console := console w' @ [rq] \<rparr>)"

text \<open>
  \<^verbatim>\<open>loadAll\<close>: the five requests are issued before \<^verbatim>\<open>Promise.all\<close> waits for them;
  when one fails the \<^verbatim>\<open>await\<close> throws and the state keeps \<^verbatim>\<open>loading = true\<close>.
\<close>

definition loadAll :: "'srv network \<Rightarrow> app \<Rightarrow> 'srv world \<Rightarrow> completion \<times> app \<times> 'srv world" where
  "loadAll net st w =
     (let st1 = st\<lparr> loading := True \<rparr>;
          w1 = w\<lparr> requests := requests w @
                 [get_request ''/api/user/'', get_request ''/api/module/'',
                  get_request ''/api/permissions/'', get_request ''/api/userRole/'',
                  get_request ''/api/role/''] \<rparr>
      in case snapshot net (server w) of
           None \<Rightarrow> (Threw, st1, w1)
         | Some d \<Rightarrow>
             (Returned,
              st1\<lparr> users := d_users d, modules := d_modules d, permissions := d_permissions d,
                   userRoles := d_userRoles d, roles := d_roles d, loading := False \<rparr>,
              w1))"

subsection \<open>The action modal\<close>

definition closedActionModal :: actionModal where
  "closedActionModal =
     \<lparr> am_open = False, am_userId = None, am_moduleId = None, am_action = None,
       am_selectedRoles = DAList.empty, am_userRolesList = [] \<rparr>"

text \<open>\<^verbatim>\<open>!!(p && p.actions && p.actions.includes(action))\<close>\<close>

definition grants :: "permission option \<Rightarrow> action \<Rightarrow> bool" where
  "grants p a = (case p of None \<Rightarrow> False | Some perm \<Rightarrow> action_str a \<in> set (p_actions perm))"

definition noRolesAlert :: string where
  "noRolesAlert = ''User has no roles assigned. Assign a role first.''"

definition openActionModal ::
  "app \<Rightarrow> 'srv world \<Rightarrow> int \<Rightarrow> int \<Rightarrow> action \<Rightarrow> app \<times> 'srv world" where
  "openActionModal st w uid mid a =
     (let userRolesObjs = userRolesObjects (userRoles st) (roles st) uid
      in if length userRolesObjs = 0 then (st, w\<lparr> alerts := alerts w @ [noRolesAlert] \<rparr>)
         else
           let selected =
                 foldl (\<lambda>sel r. DAList.update (r_id r)
                                  (grants (permMap (permissions st) (perm_key (r_id r) mid)) a) sel)
                   DAList.empty userRolesObjs
           in (st\<lparr> actionModal :=
                     \<lparr> am_open = True, am_userId = Some uid, am_moduleId = Some mid,
                       am_action = Some a, am_selectedRoles = selected,
                       am_userRolesList = userRolesObjs \<rparr> \<rparr>,
               w))"

text \<open>
  Ticking or unticking a role in the modal (line 431): the selection is copied with the
  role's key set to the box's state.
\<close>

definition toggleSelectedRole :: "app \<Rightarrow> int \<Rightarrow> bool \<Rightarrow> app" where
  "toggleSelectedRole st rid checked =
     st\<lparr> actionModal :=
          (actionModal st)\<lparr> am_selectedRoles :=
             DAList.update rid checked (am_selectedRoles (actionModal st)) \<rparr> \<rparr>"

text \<open>
  \<^verbatim>\<open>Object.entries\<close> lists the keys that are array indices (integers from 0 to
  \<open>2\<^sup>3\<^sup>2 - 2\<close>) in ascending order first, then the other keys in the order of their
  creation. \<^verbatim>\<open>Number(k)\<close> gives back the integer the key was made from.
\<close>

definition array_index :: "int \<Rightarrow> bool" where
  "array_index k = (0 \<le> k \<and> k < 4294967295)"

definition Object_entries :: "(int, 'v) alist \<Rightarrow> (int \<times> 'v) list" where
  "Object_entries obj =
     (let xs = DAList.impl_of obj
      in sort_key fst (filter (\<lambda>e. array_index (fst e)) xs) @
         filter (\<lambda>e. \<not> array_index (fst e)) xs)"

text \<open>\<^verbatim>\<open>!x\<close> for \<^verbatim>\<open>x: number | null\<close> (an integer): true for \<^verbatim>\<open>null\<close> and for 0.\<close>

definition falsy :: "int option \<Rightarrow> bool" where
  "falsy x = (case x of None \<Rightarrow> True | Some n \<Rightarrow> n = 0)"

text \<open>The interpolation \<^verbatim>\<open>${perm.id}\<close> of an optional number.\<close>

definition opt_str :: "int option \<Rightarrow> string" where
  "opt_str x = (case x of None \<Rightarrow> ''undefined'' | Some n \<Rightarrow> num_str n)"

definition post_permission :: "permission \<Rightarrow> request" where
  "post_permission body =
     \<lparr> rq_method = POST, rq_url = urlAPi @ ''/api/permissions'', rq_body = Some body \<rparr>"

definition put_permission :: "int option \<Rightarrow> permission \<Rightarrow> request" where
  "put_permission pid body =
     \<lparr> rq_method = PUT, rq_url = urlAPi @ ''/api/permissions/'' @ opt_str pid,
       rq_body = Some body \<rparr>"

text \<open>The new actions array of an existing row (lines 182 to 185).\<close>

definition newActions :: "string list \<Rightarrow> string \<Rightarrow> bool \<Rightarrow> string list" where
  "newActions acts targetAction enabled =
     (let has = (targetAction \<in> set acts);
          new1 = (if enabled \<and> \<not> has then acts @ [targetAction] else acts)
      in if \<not> enabled \<and> has then filter (\<lambda>a. a \<noteq> targetAction) new1 else new1)"

text \<open>The body of the \<^verbatim>\<open>for\<close> loop of \<^verbatim>\<open>applyActionModal\<close>, for one entry.\<close>

definition applyRole ::
  "'srv network \<Rightarrow> (string \<rightharpoonup> permission) \<Rightarrow> int \<Rightarrow> action \<Rightarrow> 'srv world \<Rightarrow> int \<times> bool
     \<Rightarrow> 'srv world" where
  "applyRole net pm mid targetAction w e =
     (let roleId = fst e; enabled = snd e
      in case pm (perm_key roleId mid) of
           None \<Rightarrow>
             if enabled then
               tryFetch net w
                 (post_permission
                    \<lparr> p_id = None, p_roleId = roleId, p_moduleId = mid,
                      p_actions = [action_str targetAction],
                      p_visibleFields = Some [], p_editableFields = Some [] \<rparr>)
             else w
         | Some perm \<Rightarrow>
             tryFetch net w
               (put_permission (p_id perm)
                  (perm\<lparr> p_actions := newActions (p_actions perm) (action_str targetAction) enabled \<rparr>)))"

definition applyLoop ::
  "'srv network \<Rightarrow> (string \<rightharpoonup> permission) \<Rightarrow> int \<Rightarrow> action \<Rightarrow> 'srv world \<Rightarrow> (int \<times> bool) list
     \<Rightarrow> 'srv world" where
  "applyLoop net pm mid targetAction w roleEntries =
     foldl (applyRole net pm mid targetAction) w roleEntries"

definition applyActionModal ::
  "'srv network \<Rightarrow> app \<Rightarrow> 'srv world \<Rightarrow> completion \<times> app \<times> 'srv world" where
  "applyActionModal net st w =
     (let am = actionModal st
      in if falsy (am_userId am) \<or> falsy (am_moduleId am) \<or> am_action am = None
         then (Returned, st, w)
         else
           case (am_moduleId am, am_action am) of
             (Some mid, Some targetAction) \<Rightarrow>
               let roleEntries = Object_entries (am_selectedRoles am);
                   w1 = applyLoop net (permMap (permissions st)) mid targetAction w roleEntries
               in (case loadAll net st w1 of
                     (Returned, st2, w2) \<Rightarrow> (Returned, st2\<lparr> actionModal := closedActionModal \<rparr>, w2)
                   | (Threw, st2, w2) \<Rightarrow> (Threw, st2, w2))
           | _ \<Rightarrow> (Returned, st, w))"

subsection \<open>The fields editor\<close>

text \<open>
  The normalisation of a module's field list (lines 221 to 230). \<^verbatim>\<open>JSON.parse\<close> is
  the platform's; it is the parameter \<open>parse\<close>, \<open>None\<close> standing for a thrown
  \<^verbatim>\<open>SyntaxError\<close>. An absent list and the empty text are falsy and replaced by the text
  \<^verbatim>\<open>[]\<close>.
\<close>

definition normalizeFields :: "(string \<Rightarrow> json option) \<Rightarrow> fieldsValue option \<Rightarrow> json" where
  "normalizeFields parse flds =
     (case flds of
        Some (FieldsArray xs) \<Rightarrow> JArr (map JStr xs)
      | Some (FieldsString s) \<Rightarrow>
          (case parse (if s = [] then ''[]'' else s) of None \<Rightarrow> JArr [] | Some v \<Rightarrow> v)
      | None \<Rightarrow> (case parse ''[]'' of None \<Rightarrow> JArr [] | Some v \<Rightarrow> v))"

definition assignRoleAlert :: string where
  "assignRoleAlert = ''Assign a role to the user first to edit fields for that role/module.''"

definition openFieldsEditor ::
  "(string \<Rightarrow> json option) \<Rightarrow> app \<Rightarrow> 'srv world \<Rightarrow> int \<Rightarrow> module \<Rightarrow> app \<times> 'srv world" where
  "openFieldsEditor parse st w uid moduleObj =
     (case find (\<lambda>ur. ur_userId ur = uid) (userRoles st) of
        None \<Rightarrow> (st, w\<lparr> alerts := alerts w @ [assignRoleAlert] \<rparr>)
      | Some rel \<Rightarrow>
          let perm = permMap (permissions st) (perm_key (ur_roleId rel) (m_id moduleObj));
              allFields = normalizeFields parse (m_fields moduleObj)
          in (st\<lparr> fieldsModal :=
                    \<lparr> fm_open = True,
                      fm_permId = (case perm of None \<Rightarrow> None | Some p \<Rightarrow> p_id p),
                      fm_moduleId = Some (m_id moduleObj),
                      fm_roleId = Some (ur_roleId rel),
                      fm_visibleFields =
                        (case perm of None \<Rightarrow> [] | Some p \<Rightarrow> or_empty (p_visibleFields p)),
                      fm_editableFields =
                        (case perm of None \<Rightarrow> [] | Some p \<Rightarrow> or_empty (p_editableFields p)),
                      fm_allFields = allFields \<rparr> \<rparr>,
              w))"

text \<open>The request that \<^verbatim>\<open>saveFieldsModal\<close> sends once its guard has passed.\<close>

definition saveRequest :: "permission list \<Rightarrow> fieldsModal \<Rightarrow> int \<Rightarrow> int \<Rightarrow> request" where
  "saveRequest ps fm mid rid =
     (case find (\<lambda>p. p_roleId p = rid \<and> p_moduleId p = mid) ps of
        Some existing \<Rightarrow>
          put_permission (p_id existing)
            (existing\<lparr> p_visibleFields := Some (fm_visibleFields fm),
                       p_editableFields := Some (fm_editableFields fm) \<rparr>)
      | None \<Rightarrow>
          post_permission
            \<lparr> p_id = None, p_roleId = rid, p_moduleId = mid, p_actions = [],
              p_visibleFields = Some (fm_visibleFields fm),
              p_editableFields = Some (fm_editableFields fm) \<rparr>)"

definition saveFieldsModal ::
  "'srv network \<Rightarrow> app \<Rightarrow> 'srv world \<Rightarrow> completion \<times> app \<times> 'srv world" where
  "saveFieldsModal net st w =
     (let fm = fieldsModal st
      in if falsy (fm_moduleId fm) \<or> falsy (fm_roleId fm)
         then (Returned, st\<lparr> fieldsModal := fm\<lparr> fm_open := False \<rparr> \<rparr>, w)
         else
           case (fm_moduleId fm, fm_roleId fm) of
             (Some mid, Some rid) \<Rightarrow>
               let (ok, w1) = awaitFetch net w (saveRequest (permissions st) fm mid rid)
               in if \<not> ok then (Threw, st, w1)
                  else (case loadAll net st w1 of
                          (Returned, st2, w2) \<Rightarrow>
                            (Returned, st2\<lparr> fieldsModal := fm\<lparr> fm_open := False \<rparr> \<rparr>, w2)
                        | (Threw, st2, w2) \<Rightarrow> (Threw, st2, w2))
           | _ \<Rightarrow> (Returned, st\<lparr> fieldsModal := fm\<lparr> fm_open := False \<rparr> \<rparr>, w))"

section \<open>The statements of the specification, in its own words\<close>

text \<open>
  The specification describes the field union over "all permission rows whose
  (roleId, moduleId) key matches one of the user's roles and the module":
  \<open>matchingRows\<close> selects those rows from a list of rows and \<open>unionOf\<close> collects
  a field list over them. \<open>lastRows\<close> keeps, for each (roleId, moduleId) pair, the
  last row of the snapshot with that pair: a row is dropped when a later row has its
  pair. It is defined on the list of rows alone, without the index.
\<close>

definition matchingRows :: "permission list \<Rightarrow> userRole list \<Rightarrow> int \<Rightarrow> int \<Rightarrow> permission list" where
  "matchingRows ps urs uid mid =
     filter (\<lambda>p. p_roleId p \<in> set (userRoleIds urs uid) \<and> p_moduleId p = mid) ps"

fun lastRows :: "permission list \<Rightarrow> permission list" where
  "lastRows [] = []"
| "lastRows (p # ps) =
     (if list_ex (\<lambda>q. p_roleId q = p_roleId p \<and> p_moduleId q = p_moduleId p) ps
      then lastRows ps else p # lastRows ps)"

definition unionOf :: "(permission \<Rightarrow> string list option) \<Rightarrow> permission list \<Rightarrow> string set" where
  "unionOf field rows = set (concat (map (\<lambda>p. or_empty (field p)) rows))"

section \<open>Sample data\<close>

text \<open>
  User 5 holds roles 1 and 2, user 6 holds none; both roles have a row for module 7.
\<close>

definition sample_permissions :: "permission list" where
  "sample_permissions =
     [\<lparr> p_id = Some 10, p_roleId = 1, p_moduleId = 7, p_actions = [''read''],
        p_visibleFields = Some [''amount''], p_editableFields = Some [] \<rparr>,
      \<lparr> p_id = Some 11, p_roleId = 2, p_moduleId = 7, p_actions = [''read'', ''update''],
        p_visibleFields = Some [''date''], p_editableFields = None \<rparr>]"

definition sample_userRoles :: "userRole list" where
  "sample_userRoles =
     [\<lparr> ur_id = Some 100, ur_userId = 5, ur_roleId = 1 \<rparr>,
      \<lparr> ur_id = Some 101, ur_userId = 5, ur_roleId = 2 \<rparr>]"

text \<open>Two rows for the pair (role 1, module 7), as a server without a uniqueness check can return.\<close>

definition duplicate_permissions :: "permission list" where
  "duplicate_permissions =
     [\<lparr> p_id = Some 10, p_roleId = 1, p_moduleId = 7, p_actions = [''read''],
        p_visibleFields = Some [''amount''], p_editableFields = Some [''amount''] \<rparr>,
      \<lparr> p_id = Some 11, p_roleId = 1, p_moduleId = 7, p_actions = [''read''],
        p_visibleFields = Some [''date''], p_editableFields = Some [] \<rparr>]"

section \<open>Reading a trace\<close>

text \<open>
  The requests a handler added to the trace, and the role a request's body names
  (\<open>None\<close> for a request without a body).
\<close>

definition issued :: "'srv world \<Rightarrow> 'srv world \<Rightarrow> request list" where
  "issued w w' = drop (length (requests w)) (requests w')"

definition rq_role :: "request \<Rightarrow> int option" where
  "rq_role rq = map_option p_roleId (rq_body rq)"

text \<open>
  The requests of one iteration of the loop of \<^verbatim>\<open>applyActionModal\<close>, read off its
  two branches: what \<open>applyRole\<close> adds to the trace.
\<close>

definition roleRequests :: "(string \<rightharpoonup> permission) \<Rightarrow> int \<Rightarrow> action \<Rightarrow> int \<times> bool \<Rightarrow> request list" where
  "roleRequests pm mid targetAction e =
     (case pm (perm_key (fst e) mid) of
        None \<Rightarrow>
          if snd e then
            [post_permission
               \<lparr> p_id = None, p_roleId = fst e, p_moduleId = mid,
                 p_actions = [action_str targetAction],
                 p_visibleFields = Some [], p_editableFields = Some [] \<rparr>]
          else []
      | Some perm \<Rightarrow>
          [put_permission (p_id perm)
             (perm\<lparr> p_actions := newActions (p_actions perm) (action_str targetAction) (snd e) \<rparr>)])"

text \<open>
  A selection over roles 1, 3 and 4, a network on which every request is rejected, and a
  world in which nothing has happened yet.
\<close>

definition sample_selection :: "(int, bool) alist" where
  "sample_selection =
     DAList.update 4 False (DAList.update 3 True (DAList.update 1 False DAList.empty))"

definition offline :: "unit network" where
  "offline = \<lparr> mutate = (\<lambda>s rq. (s, False)), snapshot = (\<lambda>s. None) \<rparr>"

definition idle_world :: "unit world" where
  "idle_world = \<lparr> server = (), requests = [], console = [], alerts = [] \<rparr>"

definition sample_roles :: "role list" where
  "sample_roles =
     [\<lparr> r_id = 1, r_name = ''Editor'' \<rparr>, \<lparr> r_id = 2, r_name = ''Viewer'' \<rparr>,
      \<lparr> r_id = 3, r_name = ''Auditor'' \<rparr>]"

definition closedFieldsModal :: fieldsModal where
  "closedFieldsModal =
     \<lparr> fm_open = False, fm_permId = None, fm_moduleId = None, fm_roleId = None,
       fm_visibleFields = [], fm_editableFields = [], fm_allFields = JArr [] \<rparr>"

definition sample_app :: app where
  "sample_app =
     \<lparr> users = [\<lparr> u_id = 5, u_name = ''Ana'' \<rparr>, \<lparr> u_id = 6, u_name = ''Luis'' \<rparr>],
       modules = [\<lparr> m_id = 7, m_name = ''Invoices'', m_fields = Some (FieldsArray [''amount'', ''date'']) \<rparr>],
       permissions = sample_permissions, userRoles = sample_userRoles, roles = sample_roles,
       loading = False, fieldsModal = closedFieldsModal, actionModal = closedActionModal \<rparr>"

text \<open>The same page when the only role has id 0 and is linked to user 5.\<close>

definition zero_app :: app where
  "zero_app =
     sample_app\<lparr> userRoles := [\<lparr> ur_id = Some 100, ur_userId = 5, ur_roleId = 0 \<rparr>],
                 roles := [\<lparr> r_id = 0, r_name = ''Admin'' \<rparr>] \<rparr>"

text \<open>
  The specification's "sequence of field-name strings": a JSON array whose elements
  are all strings.
\<close>

fun is_JStr :: "json \<Rightarrow> bool" where
  "is_JStr (JStr s) = True"
| "is_JStr j = False"

definition names_sequence :: "json \<Rightarrow> bool" where
  "names_sequence j = (case j of JArr xs \<Rightarrow> list_all is_JStr xs | _ \<Rightarrow> False)"

text \<open>
  \<^verbatim>\<open>JSON.parse\<close> on the texts of the examples: the empty array, the numeral 42 and
  \<^verbatim>\<open>null\<close> are JSON documents; a text outside this table counts as malformed,
  which the lone opening brace used below is.
\<close>

definition JSON_parse_table :: "string \<Rightarrow> json option" where
  "JSON_parse_table s =
     (if s = ''[]'' then Some (JArr [])
      else if s = ''42'' then Some (JNum 42)
      else if s = ''null'' then Some JNull
      else None)"

definition sample_module :: module where
  "sample_module =
     \<lparr> m_id = 7, m_name = ''Invoices'', m_fields = Some (FieldsArray [''amount'', ''date'']) \<rparr>"

text \<open>
  A server state is a dataset here. On the network \<open>read_only\<close> every mutating request
  is rejected while the five reads succeed.
\<close>

definition read_only :: "dataset network" where
  "read_only = \<lparr> mutate = (\<lambda>d rq. (d, False)), snapshot = Some \<rparr>"

definition dataset_of :: "app \<Rightarrow> dataset" where
  "dataset_of st =
     \<lparr> d_users = users st, d_modules = modules st, d_permissions = permissions st,
       d_userRoles = userRoles st, d_roles = roles st \<rparr>"

definition world_of :: "'srv \<Rightarrow> 'srv world" where
  "world_of srv = \<lparr> server = srv, requests = [], console = [], alerts = [] \<rparr>"

section \<open>The server of the specification\<close>

text \<open>
  Modelled from the spec: the HTTP server that stores the permissions is an external
  service and not part of the repository. Section 6 of the specification gives its
  endpoints: \<^verbatim>\<open>POST /api/permissions\<close> creates a permission from a body without id,
  \<^verbatim>\<open>PUT /api/permissions/:id\<close> replaces the fields of the permission with that id, and
  the data model says that ids are unique and assigned by the server. Here a POST
  appends the body under an id larger than every id in use, a PUT rewrites the row
  whose id the URL names and keeps that id, and any other request changes nothing.
\<close>

definition fresh_id :: "permission list \<Rightarrow> int" where
  "fresh_id ps = 1 + foldr (\<lambda>p m. case p_id p of None \<Rightarrow> m | Some i \<Rightarrow> max i m) ps 0"

text \<open>
  Modelled from the spec: what one request does to the server's permission rows (the
  server's code is not in the repository).
\<close>

definition serve_permissions :: "permission list \<Rightarrow> request \<Rightarrow> permission list" where
  "serve_permissions ps rq =
     (case rq_body rq of
        None \<Rightarrow> ps
      | Some body \<Rightarrow>
          if rq_method rq = POST \<and> rq_url rq = urlAPi @ ''/api/permissions''
          then ps @ [body\<lparr> p_id := Some (fresh_id ps) \<rparr>]
          else if rq_method rq = PUT
          then map (\<lambda>p. if p_id p \<noteq> None \<and>
                            rq_url rq = urlAPi @ ''/api/permissions/'' @ opt_str (p_id p)
                         then body\<lparr> p_id := p_id p \<rparr> else p) ps
          else ps)"

text \<open>
  Modelled from the spec: the state of the server. Besides the dataset it says what the
  network will do: sections 4.3 and 7 let a POST or PUT be rejected, and section 5 lets
  the reads of a reload fail. \<open>sv_rejects\<close> lists, for the coming mutating requests
  in order, whether each is rejected; once the list is used up every request is
  answered. \<open>sv_reads_fail\<close> says that a read of a reload fails.
\<close>

record server_state =
  sv_data :: dataset
  sv_rejects :: "bool list"
  sv_reads_fail :: bool

text \<open>
  Modelled from the spec: the server as a network for the page. A rejected request
  changes no row and is reported to the page as a rejected promise; an answered request
  is applied by \<open>serve_permissions\<close>. The five reads deliver the dataset as it is,
  unless they fail.
\<close>

definition spec_server :: "server_state network" where
  "spec_server =
     \<lparr> mutate = (\<lambda>s rq.
         case sv_rejects s of
           [] \<Rightarrow>
             (s\<lparr> sv_data := (sv_data s)\<lparr> d_permissions :=
                    serve_permissions (d_permissions (sv_data s)) rq \<rparr> \<rparr>, True)
         | rejected # rest \<Rightarrow>
             if rejected then (s\<lparr> sv_rejects := rest \<rparr>, False)
             else
               (s\<lparr> sv_data := (sv_data s)\<lparr> d_permissions :=
                      serve_permissions (d_permissions (sv_data s)) rq \<rparr>,
                   sv_rejects := rest \<rparr>, True)),
       snapshot = (\<lambda>s. if sv_reads_fail s then None else Some (sv_data s)) \<rparr>"

text \<open>The server's rows all have an id, and no two rows share one.\<close>

definition ids_unique :: "permission list \<Rightarrow> bool" where
  "ids_unique ps = (distinct (map p_id ps) \<and> None \<notin> set (map p_id ps))"

text \<open>The sample page with the action modal open for user 5, module 7 and the action update.\<close>

definition sample_modal_app :: app where
  "sample_modal_app =
     sample_app\<lparr> actionModal :=
       \<lparr> am_open = True, am_userId = Some 5, am_moduleId = Some 7, am_action = Some Update,
         am_selectedRoles = sample_selection, am_userRolesList = [] \<rparr> \<rparr>"

text \<open>
  A user with id 0 who holds roles 1 and 3, and the page after a click on the create
  checkbox of module 7 for that user and a tick on role 3 in the modal.
\<close>

definition zero_user_app :: app where
  "zero_user_app =
     sample_app\<lparr> users := [\<lparr> u_id = 0, u_name = ''Root'' \<rparr>],
                 userRoles := [\<lparr> ur_id = Some 100, ur_userId = 0, ur_roleId = 1 \<rparr>,
                               \<lparr> ur_id = Some 101, ur_userId = 0, ur_roleId = 3 \<rparr>] \<rparr>"

definition zero_user_modal_app :: app where
  "zero_user_modal_app =
     toggleSelectedRole (fst (openActionModal zero_user_app idle_world 0 7 Create)) 3 True"

text \<open>
  The specification's "applying the identical selection again": after the first
  application and its reload the modal holds the same selection once more, and Apply
  runs on the reloaded page.
\<close>

definition applyTwice ::
  "'srv network \<Rightarrow> app \<Rightarrow> 'srv world \<Rightarrow> completion \<times> app \<times> 'srv world" where
  "applyTwice net st w =
     (let once = applyActionModal net st w
      in applyActionModal net ((fst (snd once))\<lparr> actionModal := actionModal st \<rparr>) (snd (snd once)))"

text \<open>The server's permission rows at the end of a handler.\<close>

definition server_rows :: "completion \<times> app \<times> server_state world \<Rightarrow> permission list" where
  "server_rows result = d_permissions (sv_data (server (snd (snd result))))"

text \<open>
  Sample pages with the modal open for user 5 and module 7: one that ticks role 3 for
  the action create, and one whose snapshot lacks the first row of the server (a stale
  snapshot) and unticks role 1 for the action read. The sample server holds the sample
  page's dataset; its argument lists the coming rejections.
\<close>

definition role3_modal_app :: app where
  "role3_modal_app =
     sample_app\<lparr> actionModal :=
       \<lparr> am_open = True, am_userId = Some 5, am_moduleId = Some 7, am_action = Some Create,
         am_selectedRoles = DAList.update 3 True DAList.empty, am_userRolesList = [] \<rparr> \<rparr>"

definition stale_modal_app :: app where
  "stale_modal_app =
     sample_app\<lparr> permissions := tl sample_permissions,
       actionModal :=
         \<lparr> am_open = True, am_userId = Some 5, am_moduleId = Some 7, am_action = Some Read,
           am_selectedRoles = DAList.update 1 False DAList.empty, am_userRolesList = [] \<rparr> \<rparr>"

definition sample_server :: "bool list \<Rightarrow> server_state" where
  "sample_server rejects =
     \<lparr> sv_data = dataset_of sample_app, sv_rejects = rejects, sv_reads_fail = False \<rparr>"

section \<open>Keys of the permission index\<close>

text \<open>The decimal rendering is injective, and so is the key built from two numbers.\<close>

lemma digit_char_cases: "d < 10 \<Longrightarrow> digit_char d \<in> set ''0123456789''"
  by (simp add: digit_char_def del: set_simps)

lemma digit_char_not_minus: "d < 10 \<Longrightarrow> digit_char d \<noteq> CHR ''-''"
  using digit_char_cases [of d] by auto

lemma digit_char_inj: "d < 10 \<Longrightarrow> e < 10 \<Longrightarrow> digit_char d = digit_char e \<Longrightarrow> d = e"
  unfolding digit_char_def
  by (subst (asm) nth_eq_iff_index_eq) simp_all

lemma digits_not_Nil: "digits n \<noteq> []"
  by (subst digits.simps) simp

lemma minus_notin_digits: "CHR ''-'' \<notin> set (digits n)"
proof (induction n rule: digits.induct)
  case (1 n)
  show ?case
  proof (cases "n < 10")
    case True
    then show ?thesis
      using digit_char_not_minus [of n] by (subst digits.simps) auto
  next
    case False
    have "n mod 10 < 10" by simp
    then have "digit_char (n mod 10) \<noteq> CHR ''-''" by (rule digit_char_not_minus)
    with False "1" show ?thesis
      by (subst digits.simps) auto
  qed
qed

lemma digits_inj: "digits m = digits n \<Longrightarrow> m = n"
proof (induction m arbitrary: n rule: digits.induct)
  case (1 m)
  show ?case
  proof (cases "m < 10")
    case m: True
    show ?thesis
    proof (cases "n < 10")
      case True
      with m "1.prems" show ?thesis
        by (simp add: digits.simps [of m] digits.simps [of n] digit_char_inj)
    next
      case False
      with m "1.prems" digits_not_Nil [of "n div 10"] show ?thesis
        by (simp add: digits.simps [of m] digits.simps [of n] Cons_eq_append_conv)
    qed
  next
    case m: False
    show ?thesis
    proof (cases "n < 10")
      case True
      with m "1.prems" digits_not_Nil [of "m div 10"] show ?thesis
        by (simp add: digits.simps [of m] digits.simps [of n] append_eq_Cons_conv)
    next
      case False
      with m "1.prems" have eq: "digits (m div 10) = digits (n div 10)"
        and d: "digit_char (m mod 10) = digit_char (n mod 10)"
        by (simp_all add: digits.simps [of m] digits.simps [of n])
      from "1.IH" [OF m eq] have "m div 10 = n div 10" .
      moreover from d have "m mod 10 = n mod 10"
        by (intro digit_char_inj) simp_all
      ultimately show ?thesis
        by (metis div_mult_mod_eq)
    qed
  qed
qed

lemma num_str_inj: "num_str a = num_str b \<Longrightarrow> a = b"
proof -
  assume eq: "num_str a = num_str b"
  have hd_neg: "\<And>i. i < 0 \<Longrightarrow> hd (num_str i) = CHR ''-''"
    by (simp add: num_str_def)
  have hd_pos: "\<And>i. \<not> i < 0 \<Longrightarrow> hd (num_str i) \<noteq> CHR ''-''"
    using minus_notin_digits digits_not_Nil
    by (metis hd_in_set num_str_def)
  from eq hd_neg hd_pos have sign: "a < 0 \<longleftrightarrow> b < 0"
    by metis
  show ?thesis
  proof (cases "a < 0")
    case True
    with sign eq have "digits (nat (- a)) = digits (nat (- b))"
      by (simp add: num_str_def)
    then have "nat (- a) = nat (- b)" by (rule digits_inj)
    with True sign show ?thesis by simp
  next
    case False
    with sign eq have "digits (nat a) = digits (nat b)"
      by (simp add: num_str_def)
    then have "nat a = nat b" by (rule digits_inj)
    with False sign show ?thesis by simp
  qed
qed

lemma split_at_first:
  "xs @ c # r = ys @ c # s \<Longrightarrow> c \<notin> set xs \<Longrightarrow> c \<notin> set ys \<Longrightarrow> xs = ys \<and> r = s"
proof (induction xs arbitrary: ys)
  case Nil
  then show ?case by (cases ys) auto
next
  case (Cons x xs)
  then show ?case by (cases ys) auto
qed

lemma num_str_split:
  "num_str a @ CHR ''-'' # r = num_str b @ CHR ''-'' # s \<Longrightarrow> num_str a = num_str b \<and> r = s"
proof -
  assume eq: "num_str a @ CHR ''-'' # r = num_str b @ CHR ''-'' # s"
  have hd_neg: "\<And>i t. i < 0 \<Longrightarrow> hd (num_str i @ t) = CHR ''-''"
    by (simp add: num_str_def)
  have hd_pos: "\<And>i t. \<not> i < 0 \<Longrightarrow> hd (num_str i @ t) \<noteq> CHR ''-''"
    using minus_notin_digits digits_not_Nil
    by (metis hd_append2 hd_in_set num_str_def)
  from eq hd_neg hd_pos have sign: "a < 0 \<longleftrightarrow> b < 0"
    by metis
  show ?thesis
  proof (cases "a < 0")
    case True
    with sign eq have "digits (nat (- a)) @ CHR ''-'' # r = digits (nat (- b)) @ CHR ''-'' # s"
      by (simp add: num_str_def)
    then have "digits (nat (- a)) = digits (nat (- b)) \<and> r = s"
      by (rule split_at_first) (rule minus_notin_digits)+
    with True sign show ?thesis by (simp add: num_str_def)
  next
    case False
    with sign eq have "digits (nat a) @ CHR ''-'' # r = digits (nat b) @ CHR ''-'' # s"
      by (simp add: num_str_def)
    then have "digits (nat a) = digits (nat b) \<and> r = s"
      by (rule split_at_first) (rule minus_notin_digits)+
    with False sign show ?thesis by (simp add: num_str_def)
  qed
qed

lemma perm_key_inj: "perm_key r m = perm_key r' m' \<longleftrightarrow> r = r' \<and> m = m'"
proof
  assume "perm_key r m = perm_key r' m'"
  then have "num_str r @ CHR ''-'' # num_str m = num_str r' @ CHR ''-'' # num_str m'"
    by (simp add: perm_key_def)
  then have "num_str r = num_str r' \<and> num_str m = num_str m'"
    by (rule num_str_split)
  then show "r = r' \<and> m = m'"
    by (simp add: num_str_inj)
qed simp

declare perm_key_inj [simp]

lemma permMap_Nil: "permMap [] = Map.empty"
  by (simp add: permMap_def)

lemma permMap_snoc:
  "permMap (ps @ [p]) = (permMap ps)(perm_key (p_roleId p) (p_moduleId p) \<mapsto> p)"
  by (simp add: permMap_def)

lemma permMap_Some:
  "permMap ps k = Some p \<Longrightarrow> p \<in> set ps \<and> k = perm_key (p_roleId p) (p_moduleId p)"
proof (induction ps arbitrary: p rule: rev_induct)
  case Nil
  then show ?case by (simp add: permMap_Nil)
next
  case (snoc x xs)
  show ?case
  proof (cases "k = perm_key (p_roleId x) (p_moduleId x)")
    case True
    with snoc.prems have "p = x" by (simp add: permMap_snoc)
    with True show ?thesis by simp
  next
    case False
    with snoc.prems have "permMap xs k = Some p" by (simp add: permMap_snoc)
    from snoc.IH [OF this] show ?thesis by simp
  qed
qed

lemma permMap_None:
  "permMap ps (perm_key r m) = None \<longleftrightarrow> (\<forall>p \<in> set ps. \<not> (p_roleId p = r \<and> p_moduleId p = m))"
  by (induction ps rule: rev_induct) (auto simp: permMap_Nil permMap_snoc)

lemma permMap_last:
  "permMap ps (perm_key r m) =
     (case filter (\<lambda>p. p_roleId p = r \<and> p_moduleId p = m) ps of
        [] \<Rightarrow> None
      | q # qs \<Rightarrow> Some (last (q # qs)))"
  by (induction ps rule: rev_induct) (auto simp: permMap_Nil permMap_snoc split: list.splits)

section \<open>The permission resolver\<close>

lemma hasActionLoop_iff:
  "hasActionLoop pm mid a rids \<longleftrightarrow>
     (\<exists>rid \<in> set rids. \<exists>p. pm (perm_key rid mid) = Some p \<and> action_str a \<in> set (p_actions p))"
  by (induction rids) (auto split: option.splits)

text \<open>
  Claim C1. \<^verbatim>\<open>userHasAction(U, M, A)\<close> is true exactly when some user-role record
  links \<open>U\<close> to a role \<open>R\<close> for which the index holds, under the key of
  \<open>(R, M)\<close>, a permission row whose actions list contains \<open>A\<close>. In particular it
  is false for a user without linked roles.
\<close>

theorem userHasAction_iff_some_role_grants:
  "(userHasAction ps urs uid mid a \<longleftrightarrow>
      (\<exists>ur \<in> set urs. ur_userId ur = uid \<and>
         (\<exists>p. permMap ps (perm_key (ur_roleId ur) mid) = Some p \<and>
              action_str a \<in> set (p_actions p)))) \<and>
   (userRoleIds urs uid = [] \<longrightarrow> \<not> userHasAction ps urs uid mid a)"
  by (auto simp: userHasAction_def hasActionLoop_iff userRoleIds_def)

theorem userHasAction_iff_some_role_grants_witness:
  "userHasAction sample_permissions sample_userRoles 5 7 Update \<and>
   \<not> userHasAction sample_permissions sample_userRoles 5 7 Delete \<and>
   userRoleIds sample_userRoles 6 = [] \<and>
   \<not> userHasAction sample_permissions sample_userRoles 6 7 Read"
  using userHasAction_iff_some_role_grants [of sample_permissions sample_userRoles 5 7 Update]
    userHasAction_iff_some_role_grants [of sample_permissions sample_userRoles 5 7 Delete]
    userHasAction_iff_some_role_grants [of sample_permissions sample_userRoles 6 7 Read]
  by (simp add: sample_permissions_def sample_userRoles_def userRoleIds_def permMap_def)

lemma set_foldl_set_add: "set (foldl set_add s xs) = set s \<union> set xs"
  by (induction xs arbitrary: s) (auto simp: set_add_def)

lemma distinct_foldl_set_add: "distinct s \<Longrightarrow> distinct (foldl set_add s xs)"
  by (induction xs arbitrary: s) (auto simp: set_add_def)

lemma unionOf_conv: "unionOf field rows = (\<Union>p \<in> set rows. set (or_empty (field p)))"
  by (simp add: unionOf_def)

lemma visible_foldl_unionStep:
  "set (visible (foldl (unionStep pm mid) acc rids)) =
     set (visible acc) \<union>
     {f. \<exists>rid \<in> set rids. \<exists>p. pm (perm_key rid mid) = Some p \<and> f \<in> set (or_empty (p_visibleFields p))}"
  by (induction rids arbitrary: acc)
     (auto simp: unionStep_def set_foldl_set_add split: option.splits)

lemma editable_foldl_unionStep:
  "set (editable (foldl (unionStep pm mid) acc rids)) =
     set (editable acc) \<union>
     {f. \<exists>rid \<in> set rids. \<exists>p. pm (perm_key rid mid) = Some p \<and> f \<in> set (or_empty (p_editableFields p))}"
  by (induction rids arbitrary: acc)
     (auto simp: unionStep_def set_foldl_set_add split: option.splits)

lemma distinct_foldl_unionStep:
  "distinct (visible acc) \<Longrightarrow> distinct (editable acc) \<Longrightarrow>
   distinct (visible (foldl (unionStep pm mid) acc rids)) \<and>
   distinct (editable (foldl (unionStep pm mid) acc rids))"
  by (induction rids arbitrary: acc)
     (auto simp: unionStep_def distinct_foldl_set_add split: option.splits)

lemma foldl_unionStep_no_rows:
  "\<forall>rid \<in> set rids. pm (perm_key rid mid) = None \<Longrightarrow> foldl (unionStep pm mid) acc rids = acc"
  by (induction rids arbitrary: acc) (auto simp: unionStep_def)

lemma filter_lastRows:
  "filter (\<lambda>p. p_roleId p = r \<and> p_moduleId p = m) (lastRows ps) =
     (case filter (\<lambda>p. p_roleId p = r \<and> p_moduleId p = m) ps of
        [] \<Rightarrow> []
      | q # qs \<Rightarrow> [last (q # qs)])"
proof (induction ps)
  case Nil
  then show ?case by simp
next
  case (Cons x xs)
  let ?P = "\<lambda>p. p_roleId p = r \<and> p_moduleId p = m"
  show ?case
  proof (cases "?P x")
    case False
    then have "filter ?P (lastRows (x # xs)) = filter ?P (lastRows xs)"
      and "filter ?P (x # xs) = filter ?P xs"
      by auto
    with Cons.IH show ?thesis by (simp only:)
  next
    case True
    then have ex: "list_ex (\<lambda>q. p_roleId q = p_roleId x \<and> p_moduleId q = p_moduleId x) xs \<longleftrightarrow>
        filter ?P xs \<noteq> []"
      by (auto simp: list_ex_iff filter_empty_conv)
    show ?thesis
    proof (cases "filter ?P xs")
      case Nil
      with True ex Cons show ?thesis by simp
    next
      case (Cons q qs)
      with True ex Cons.IH show ?thesis by simp
    qed
  qed
qed

lemma in_lastRows_iff:
  "p \<in> set (lastRows ps) \<and> p_roleId p = r \<and> p_moduleId p = m \<longleftrightarrow>
     permMap ps (perm_key r m) = Some p"
proof -
  have "p \<in> set (lastRows ps) \<and> p_roleId p = r \<and> p_moduleId p = m \<longleftrightarrow>
      p \<in> set (filter (\<lambda>p. p_roleId p = r \<and> p_moduleId p = m) (lastRows ps))"
    by auto
  also have "\<dots> \<longleftrightarrow> permMap ps (perm_key r m) = Some p"
    by (simp only: filter_lastRows permMap_last) (auto split: list.splits)
  finally show ?thesis .
qed

lemma in_matching_lastRows:
  "p \<in> set (matchingRows (lastRows ps) urs uid mid) \<longleftrightarrow>
     (\<exists>rid \<in> set (userRoleIds urs uid). permMap ps (perm_key rid mid) = Some p)"
proof -
  have "p \<in> set (matchingRows (lastRows ps) urs uid mid) \<longleftrightarrow>
      (\<exists>rid \<in> set (userRoleIds urs uid).
         p \<in> set (lastRows ps) \<and> p_roleId p = rid \<and> p_moduleId p = mid)"
    by (auto simp: matchingRows_def)
  then show ?thesis by (simp only: in_lastRows_iff)
qed

lemma union_lastRows_conv:
  "unionOf field (matchingRows (lastRows ps) urs uid mid) =
     {f. \<exists>rid \<in> set (userRoleIds urs uid). \<exists>p. permMap ps (perm_key rid mid) = Some p \<and>
           f \<in> set (or_empty (field p))}"
proof (rule set_eqI)
  fix f
  have "f \<in> unionOf field (matchingRows (lastRows ps) urs uid mid) \<longleftrightarrow>
      (\<exists>p. p \<in> set (matchingRows (lastRows ps) urs uid mid) \<and> f \<in> set (or_empty (field p)))"
    by (auto simp: unionOf_conv)
  also have "\<dots> \<longleftrightarrow> (\<exists>p. (\<exists>rid \<in> set (userRoleIds urs uid). permMap ps (perm_key rid mid) = Some p) \<and>
      f \<in> set (or_empty (field p)))"
    by (simp only: in_matching_lastRows)
  also have "\<dots> \<longleftrightarrow> (\<exists>rid \<in> set (userRoleIds urs uid). \<exists>p. permMap ps (perm_key rid mid) = Some p \<and>
      f \<in> set (or_empty (field p)))"
    by blast
  finally show "f \<in> unionOf field (matchingRows (lastRows ps) urs uid mid) \<longleftrightarrow>
      f \<in> {f. \<exists>rid \<in> set (userRoleIds urs uid). \<exists>p. permMap ps (perm_key rid mid) = Some p \<and>
           f \<in> set (or_empty (field p))}"
    by simp
qed

lemma permMap_distinct:
  "distinct (map (\<lambda>p. (p_roleId p, p_moduleId p)) ps) \<Longrightarrow> p \<in> set ps \<Longrightarrow>
   permMap ps (perm_key (p_roleId p) (p_moduleId p)) = Some p"
proof (induction ps rule: rev_induct)
  case Nil
  then show ?case by simp
next
  case (snoc x xs)
  show ?case
  proof (cases "p = x")
    case True
    then show ?thesis by (simp add: permMap_snoc)
  next
    case False
    with snoc.prems have p: "p \<in> set xs" and d: "distinct (map (\<lambda>p. (p_roleId p, p_moduleId p)) xs)"
      and "(p_roleId x, p_moduleId x) \<notin> (\<lambda>p. (p_roleId p, p_moduleId p)) ` set xs"
      by simp_all
    with p have "(p_roleId x, p_moduleId x) \<noteq> (p_roleId p, p_moduleId p)" by blast
    with snoc.IH [OF d p] show ?thesis by (auto simp: permMap_snoc)
  qed
qed

lemma lastRows_distinct:
  "distinct (map (\<lambda>p. (p_roleId p, p_moduleId p)) ps) \<Longrightarrow> lastRows ps = ps"
proof (induction ps)
  case Nil
  then show ?case by simp
next
  case (Cons x xs)
  then have new: "(p_roleId x, p_moduleId x) \<notin> (\<lambda>p. (p_roleId p, p_moduleId p)) ` set xs"
    and IH: "lastRows xs = xs" by simp_all
  have "\<not> list_ex (\<lambda>q. p_roleId q = p_roleId x \<and> p_moduleId q = p_moduleId x) xs"
  proof
    assume "list_ex (\<lambda>q. p_roleId q = p_roleId x \<and> p_moduleId q = p_moduleId x) xs"
    then obtain q where "q \<in> set xs" "p_roleId q = p_roleId x" "p_moduleId q = p_moduleId x"
      by (auto simp: list_ex_iff)
    then have "(p_roleId x, p_moduleId x) \<in> (\<lambda>p. (p_roleId p, p_moduleId p)) ` set xs"
      by (metis (mono_tags, lifting) imageI)
    with new show False by contradiction
  qed
  with IH show ?case by simp
qed

text \<open>
  Claim C2, as amended. \<^verbatim>\<open>unionFieldsForUserModule(U, M)\<close> returns, without
  repetition, exactly the union of the \<^verbatim>\<open>visibleFields\<close> (respectively
  \<^verbatim>\<open>editableFields\<close>) lists over those rows matching one of \<open>U\<close>'s roles and
  \<open>M\<close> that are the last row of the snapshot for their (roleId, moduleId) pair; when
  there is no such row both results are empty. Every row is the last of its pair when no
  two rows share a pair.
\<close>

theorem unionFields_union_over_last_rows:
  "set (visible (unionFieldsForUserModule ps urs uid mid)) =
     unionOf p_visibleFields (matchingRows (lastRows ps) urs uid mid) \<and>
   set (editable (unionFieldsForUserModule ps urs uid mid)) =
     unionOf p_editableFields (matchingRows (lastRows ps) urs uid mid) \<and>
   distinct (visible (unionFieldsForUserModule ps urs uid mid)) \<and>
   distinct (editable (unionFieldsForUserModule ps urs uid mid)) \<and>
   (matchingRows (lastRows ps) urs uid mid = [] \<longrightarrow>
      visible (unionFieldsForUserModule ps urs uid mid) = [] \<and>
      editable (unionFieldsForUserModule ps urs uid mid) = []) \<and>
   (distinct (map (\<lambda>p. (p_roleId p, p_moduleId p)) ps) \<longrightarrow> lastRows ps = ps)"
proof -
  let ?rids = "userRoleIds urs uid"
  let ?rows = "matchingRows (lastRows ps) urs uid mid"
  have vis: "set (visible (unionFieldsForUserModule ps urs uid mid)) = unionOf p_visibleFields ?rows"
    by (simp add: unionFieldsForUserModule_def visible_foldl_unionStep union_lastRows_conv)
  have edi: "set (editable (unionFieldsForUserModule ps urs uid mid)) = unionOf p_editableFields ?rows"
    by (simp add: unionFieldsForUserModule_def editable_foldl_unionStep union_lastRows_conv)
  have dist: "distinct (visible (unionFieldsForUserModule ps urs uid mid)) \<and>
      distinct (editable (unionFieldsForUserModule ps urs uid mid))"
    unfolding unionFieldsForUserModule_def Let_def
    by (rule distinct_foldl_unionStep) simp_all
  have none: "visible (unionFieldsForUserModule ps urs uid mid) = [] \<and>
      editable (unionFieldsForUserModule ps urs uid mid) = []" if "?rows = []"
  proof -
    have "\<forall>rid \<in> set ?rids. permMap ps (perm_key rid mid) = None"
    proof
      fix rid assume rid: "rid \<in> set ?rids"
      show "permMap ps (perm_key rid mid) = None"
      proof (cases "permMap ps (perm_key rid mid)")
        case (Some p)
        with rid have "p \<in> set ?rows" by (auto simp: in_matching_lastRows)
        with that show ?thesis by simp
      qed simp
    qed
    then show ?thesis
      by (simp add: unionFieldsForUserModule_def foldl_unionStep_no_rows)
  qed
  from vis edi dist none lastRows_distinct [of ps] show ?thesis by blast
qed

theorem unionFields_union_over_last_rows_witness:
  "matchingRows (lastRows sample_permissions) sample_userRoles 6 7 = [] \<and>
   visible (unionFieldsForUserModule sample_permissions sample_userRoles 6 7) = [] \<and>
   editable (unionFieldsForUserModule sample_permissions sample_userRoles 6 7) = [] \<and>
   distinct (map (\<lambda>p. (p_roleId p, p_moduleId p)) sample_permissions) \<and>
   lastRows sample_permissions = sample_permissions \<and>
   set (visible (unionFieldsForUserModule sample_permissions sample_userRoles 5 7)) =
     {''amount'', ''date''} \<and>
   lastRows duplicate_permissions = [last duplicate_permissions] \<and>
   set (visible (unionFieldsForUserModule duplicate_permissions sample_userRoles 5 7)) = {''date''}"
proof -
  have l: "lastRows duplicate_permissions = [last duplicate_permissions]"
    by (simp add: duplicate_permissions_def)
  have md: "matchingRows [last duplicate_permissions] sample_userRoles 5 7 =
      [last duplicate_permissions]"
    by (simp add: matchingRows_def userRoleIds_def sample_userRoles_def duplicate_permissions_def)
  have ud: "unionOf p_visibleFields [last duplicate_permissions] = {''date''}"
    by (simp add: unionOf_def or_empty_def duplicate_permissions_def)
  have dup: "set (visible (unionFieldsForUserModule duplicate_permissions sample_userRoles 5 7)) =
      {''date''}"
    using l md ud unionFields_union_over_last_rows [of duplicate_permissions sample_userRoles 5 7]
    by simp
  have d: "distinct (map (\<lambda>p. (p_roleId p, p_moduleId p)) sample_permissions)"
    by (simp add: sample_permissions_def)
  have e: "matchingRows (lastRows sample_permissions) sample_userRoles 6 7 = []"
    by (simp add: matchingRows_def userRoleIds_def sample_userRoles_def)
  have m: "matchingRows sample_permissions sample_userRoles 5 7 = sample_permissions"
    by (simp add: matchingRows_def userRoleIds_def sample_userRoles_def sample_permissions_def)
  have u: "unionOf p_visibleFields sample_permissions = {''amount'', ''date''}"
    by (simp add: unionOf_def or_empty_def sample_permissions_def)
  from d e m u l dup
    unionFields_union_over_last_rows [of sample_permissions sample_userRoles 6 7]
    unionFields_union_over_last_rows [of sample_permissions sample_userRoles 5 7]
  show ?thesis by simp
qed

text \<open>
  The claim as first stated takes the union over all matching rows of the snapshot. With
  two rows for the pair (role 1, module 7) the index keeps the second only, and the
  result is the second row's list, \<open>date\<close>, without the first row's \<open>amount\<close>.
\<close>

theorem unionFields_all_matching_rows_counterexample:
  "set (visible (unionFieldsForUserModule duplicate_permissions sample_userRoles 5 7)) \<noteq>
     unionOf p_visibleFields (matchingRows duplicate_permissions sample_userRoles 5 7)"
  by (simp add: unionFieldsForUserModule_def unionStep_def permMap_def userRoleIds_def
      sample_userRoles_def duplicate_permissions_def matchingRows_def unionOf_def or_empty_def
      set_add_def)

section \<open>The action modal\<close>

lemma requests_awaitFetch: "requests (snd (awaitFetch net w rq)) = requests w @ [rq]"
  by (simp add: awaitFetch_def case_prod_beta)

lemma requests_tryFetch: "requests (tryFetch net w rq) = requests w @ [rq]"
  by (simp add: tryFetch_def awaitFetch_def case_prod_beta)

lemma alerts_tryFetch: "alerts (tryFetch net w rq) = alerts w"
  by (simp add: tryFetch_def awaitFetch_def case_prod_beta)

lemma console_tryFetch:
  "console (tryFetch net w rq) =
     (if snd (mutate net (server w) rq) then console w else console w @ [rq])"
  by (simp add: tryFetch_def awaitFetch_def case_prod_beta)

lemma requests_applyRole:
  "requests (applyRole net pm mid a w e) = requests w @ roleRequests pm mid a e"
  by (simp add: applyRole_def roleRequests_def requests_tryFetch split: option.splits)

lemma requests_applyLoop:
  "requests (applyLoop net pm mid a w es) = requests w @ concat (map (roleRequests pm mid a) es)"
  unfolding applyLoop_def
  by (induction es arbitrary: w) (simp_all add: requests_applyRole)

lemma issued_applyLoop:
  "issued w (applyLoop net pm mid a w es) = concat (map (roleRequests pm mid a) es)"
  by (simp add: issued_def requests_applyLoop)

lemma rq_role_roleRequests:
  "rq \<in> set (roleRequests (permMap ps) mid a e) \<Longrightarrow> rq_role rq = Some (fst e)"
  by (auto simp: roleRequests_def rq_role_def post_permission_def put_permission_def
      split: option.splits if_splits dest: permMap_Some)

lemma filter_concat_tagged:
  assumes "distinct (map fst es)" and "e \<in> set es"
    and "\<And>e' x. e' \<in> set es \<Longrightarrow> x \<in> set (g e') \<Longrightarrow> tag x = Some (fst e')"
  shows "filter (\<lambda>x. tag x = Some (fst e)) (concat (map g es)) = g e"
  using assms
proof (induction es)
  case Nil
  then show ?case by simp
next
  case (Cons e0 es)
  have tag0: "\<And>x. x \<in> set (g e0) \<Longrightarrow> tag x = Some (fst e0)"
    using Cons.prems(3) by simp
  show ?case
  proof (cases "e = e0")
    case True
    have "filter (\<lambda>x. tag x = Some (fst e)) (g e0) = g e0"
      using tag0 True by (intro filter_True) simp
    moreover have "filter (\<lambda>x. tag x = Some (fst e)) (concat (map g es)) = []"
    proof (rule filter_False, rule ballI)
      fix x assume "x \<in> set (concat (map g es))"
      then obtain e' where e': "e' \<in> set es" and x: "x \<in> set (g e')" by auto
      then have "tag x = Some (fst e')" using Cons.prems(3) by simp
      moreover have "fst e' \<noteq> fst e"
      proof -
        from e' have "fst e' \<in> fst ` set es" by (rule imageI)
        moreover from Cons.prems(1) True have "fst e \<notin> fst ` set es" by simp
        ultimately show ?thesis by metis
      qed
      ultimately show "\<not> tag x = Some (fst e)" by simp
    qed
    ultimately show ?thesis using True by simp
  next
    case False
    with Cons.prems have e: "e \<in> set es" and d: "distinct (map fst es)" by simp_all
    have "fst e0 \<noteq> fst e"
    proof -
      from e have "fst e \<in> fst ` set es" by (rule imageI)
      moreover from Cons.prems(1) have "fst e0 \<notin> fst ` set es" by simp
      ultimately show ?thesis by metis
    qed
    then have "filter (\<lambda>x. tag x = Some (fst e)) (g e0) = []"
      using tag0 by (intro filter_False) auto
    moreover have "filter (\<lambda>x. tag x = Some (fst e)) (concat (map g es)) = g e"
      using d e Cons.prems(3) by (intro Cons.IH) simp_all
    ultimately show ?thesis by simp
  qed
qed

lemma set_Object_entries: "set (Object_entries obj) = set (DAList.impl_of obj)"
  by (auto simp: Object_entries_def Let_def)

lemma distinct_Object_entries: "distinct (map fst (Object_entries obj))"
proof -
  let ?xs = "DAList.impl_of obj"
  have "distinct (map fst ?xs)" by simp
  then have d: "distinct ?xs" and i: "inj_on fst (set ?xs)"
    by (simp_all add: distinct_map)
  from d have "distinct (Object_entries obj)"
    by (auto simp: Object_entries_def Let_def)
  moreover from i have "inj_on fst (set (Object_entries obj))"
    by (simp add: set_Object_entries)
  ultimately show ?thesis by (simp add: distinct_map)
qed

lemma issued_for_role:
  assumes "(r, en) \<in> set (Object_entries sel)"
  shows "filter (\<lambda>rq. rq_role rq = Some r)
           (issued w (applyLoop net (permMap ps) mid a w (Object_entries sel))) =
         roleRequests (permMap ps) mid a (r, en)"
  using filter_concat_tagged [OF distinct_Object_entries assms,
      of "roleRequests (permMap ps) mid a" rq_role]
  by (simp add: issued_applyLoop rq_role_roleRequests)

lemma impl_of_sample_selection:
  "DAList.impl_of sample_selection = [(1, False), (3, True), (4, False)]"
  by (simp add: sample_selection_def DAList.update.rep_eq DAList.empty.rep_eq)

text \<open>Past its guard, the Apply step issues the requests of the loop and then reloads.\<close>

lemma requests_loadAll:
  "requests (snd (snd (loadAll net st w))) =
     requests w @ map get_request
       [''/api/user/'', ''/api/module/'', ''/api/permissions/'', ''/api/userRole/'', ''/api/role/'']"
  by (simp add: loadAll_def Let_def split: option.splits)

lemma falsy_iff: "falsy x \<longleftrightarrow> x = None \<or> x = Some 0"
  by (simp add: falsy_def split: option.splits)

lemma applyActionModal_issued:
  assumes "am_userId (actionModal st) = Some u" "u \<noteq> 0"
    and "am_moduleId (actionModal st) = Some mid" "mid \<noteq> 0"
    and "am_action (actionModal st) = Some a"
  shows "issued w (snd (snd (applyActionModal net st w))) =
     concat (map (roleRequests (permMap (permissions st)) mid a)
       (Object_entries (am_selectedRoles (actionModal st)))) @
     map get_request
       [''/api/user/'', ''/api/module/'', ''/api/permissions/'', ''/api/userRole/'', ''/api/role/'']"
proof -
  let ?w1 = "applyLoop net (permMap (permissions st)) mid a w
      (Object_entries (am_selectedRoles (actionModal st)))"
  have "snd (snd (applyActionModal net st w)) = snd (snd (loadAll net st ?w1))"
    using assms
    by (simp add: applyActionModal_def Let_def falsy_iff split: prod.splits completion.splits)
  then show ?thesis
    by (simp add: issued_def requests_loadAll requests_applyLoop)
qed

lemma opt_str_10: "opt_str (Some 10) = ''10''"
  by (simp add: opt_str_def num_str_def digits.simps digit_char_def)

lemma rq_role_get_request: "rq_role (get_request path) = None"
  by (simp add: rq_role_def get_request_def)

lemma applyActionModal_issued_for_role:
  assumes "am_userId (actionModal st) = Some u" "u \<noteq> 0"
    and "am_moduleId (actionModal st) = Some mid" "mid \<noteq> 0"
    and "am_action (actionModal st) = Some a"
    and "(r, en) \<in> set (Object_entries (am_selectedRoles (actionModal st)))"
  shows "filter (\<lambda>rq. rq_role rq = Some r) (issued w (snd (snd (applyActionModal net st w)))) =
     roleRequests (permMap (permissions st)) mid a (r, en)"
proof -
  let ?es = "Object_entries (am_selectedRoles (actionModal st))"
  have "filter (\<lambda>rq. rq_role rq = Some r)
      (concat (map (roleRequests (permMap (permissions st)) mid a) ?es)) =
      roleRequests (permMap (permissions st)) mid a (r, en)"
    using issued_for_role [OF assms(6), of w net "permissions st" mid a]
    by (simp add: issued_applyLoop)
  then show ?thesis
    by (simp add: applyActionModal_issued [OF assms(1-5)] rq_role_get_request)
qed

lemma zero_user_modal:
  "actionModal zero_user_modal_app =
     \<lparr> am_open = True, am_userId = Some 0, am_moduleId = Some 7, am_action = Some Create,
       am_selectedRoles = DAList.update 3 True (DAList.update 3 False (DAList.update 1 False DAList.empty)),
       am_userRolesList = [\<lparr> r_id = 1, r_name = ''Editor'' \<rparr>, \<lparr> r_id = 3, r_name = ''Auditor'' \<rparr>] \<rparr>"
proof -
  have p1: "permMap sample_permissions (perm_key 1 7) = Some (hd sample_permissions)"
    by (simp add: permMap_def sample_permissions_def)
  have p3: "permMap sample_permissions (perm_key 3 7) = None"
    by (simp add: permMap_None sample_permissions_def)
  have g1: "grants (Some (hd sample_permissions)) Create = False"
    by (simp add: grants_def sample_permissions_def)
  show ?thesis
    by (simp add: zero_user_modal_app_def toggleSelectedRole_def openActionModal_def
        zero_user_app_def sample_app_def userRolesObjects_def userRoleIds_def sample_roles_def
        Let_def p1 p3 g1)
qed

lemma zero_user_permissions: "permissions zero_user_modal_app = sample_permissions"
  by (simp add: zero_user_modal_app_def toggleSelectedRole_def openActionModal_def
      zero_user_app_def sample_app_def userRolesObjects_def userRoleIds_def sample_roles_def
      Let_def)

lemma zero_user_entries:
  "set (Object_entries (am_selectedRoles (actionModal zero_user_modal_app))) = {(1, False), (3, True)}"
  by (auto simp: zero_user_modal set_Object_entries DAList.update.rep_eq DAList.empty.rep_eq)

lemma zero_user_apply:
  "applyActionModal net zero_user_modal_app w = (Returned, zero_user_modal_app, w)"
  by (simp add: applyActionModal_def zero_user_modal falsy_def)

text \<open>
  Claim C3, as amended. When the action modal holds a user id and a module id that are
  both different from 0, and an action, the Apply step gives a selected role without an
  indexed permission row for (role, module) exactly one request when its box is enabled,
  a POST to \<^verbatim>\<open>/api/permissions\<close> whose body has the toggled action as its only
  action and empty \<^verbatim>\<open>visibleFields\<close> and \<^verbatim>\<open>editableFields\<close>, and no request at
  all when its box is disabled.
\<close>

theorem apply_creates_row_only_when_enabled:
  assumes "am_userId (actionModal st) = Some u" "u \<noteq> 0"
    and "am_moduleId (actionModal st) = Some mid" "mid \<noteq> 0"
    and "am_action (actionModal st) = Some a"
    and "(r, en) \<in> set (Object_entries (am_selectedRoles (actionModal st)))"
    and "permMap (permissions st) (perm_key r mid) = None"
  shows "filter (\<lambda>rq. rq_role rq = Some r) (issued w (snd (snd (applyActionModal net st w)))) =
         (if en then
            [\<lparr> rq_method = POST, rq_url = urlAPi @ ''/api/permissions'',
               rq_body = Some \<lparr> p_id = None, p_roleId = r, p_moduleId = mid,
                                p_actions = [action_str a],
                                p_visibleFields = Some [], p_editableFields = Some [] \<rparr> \<rparr>]
          else [])"
  using assms(7)
  by (simp add: applyActionModal_issued_for_role [OF assms(1-6)] roleRequests_def
      post_permission_def)

theorem apply_creates_row_only_when_enabled_witness:
  "am_userId (actionModal sample_modal_app) = Some 5 \<and> (5::int) \<noteq> 0 \<and>
   am_moduleId (actionModal sample_modal_app) = Some 7 \<and> (7::int) \<noteq> 0 \<and>
   am_action (actionModal sample_modal_app) = Some Update \<and>
   (3, True) \<in> set (Object_entries (am_selectedRoles (actionModal sample_modal_app))) \<and>
   (4, False) \<in> set (Object_entries (am_selectedRoles (actionModal sample_modal_app))) \<and>
   permMap (permissions sample_modal_app) (perm_key 3 7) = None \<and>
   permMap (permissions sample_modal_app) (perm_key 4 7) = None \<and>
   filter (\<lambda>rq. rq_role rq = Some 3)
     (issued idle_world (snd (snd (applyActionModal offline sample_modal_app idle_world)))) =
     [\<lparr> rq_method = POST, rq_url = urlAPi @ ''/api/permissions'',
        rq_body = Some \<lparr> p_id = None, p_roleId = 3, p_moduleId = 7, p_actions = [''update''],
                         p_visibleFields = Some [], p_editableFields = Some [] \<rparr> \<rparr>] \<and>
   filter (\<lambda>rq. rq_role rq = Some 4)
     (issued idle_world (snd (snd (applyActionModal offline sample_modal_app idle_world)))) = []"
proof -
  have g: "am_userId (actionModal sample_modal_app) = Some 5" "(5::int) \<noteq> 0"
    "am_moduleId (actionModal sample_modal_app) = Some 7" "(7::int) \<noteq> 0"
    "am_action (actionModal sample_modal_app) = Some Update"
    by (simp_all add: sample_modal_app_def)
  have e3: "(3, True) \<in> set (Object_entries (am_selectedRoles (actionModal sample_modal_app)))"
    and e4: "(4, False) \<in> set (Object_entries (am_selectedRoles (actionModal sample_modal_app)))"
    by (simp_all add: sample_modal_app_def set_Object_entries impl_of_sample_selection)
  have n3: "permMap (permissions sample_modal_app) (perm_key 3 7) = None"
    and n4: "permMap (permissions sample_modal_app) (perm_key 4 7) = None"
    by (simp_all add: sample_modal_app_def sample_app_def permMap_None sample_permissions_def)
  from g e3 e4 n3 n4
    apply_creates_row_only_when_enabled [OF g e3 n3, where w = idle_world and net = offline]
    apply_creates_row_only_when_enabled [OF g e4 n4, where w = idle_world and net = offline]
  show ?thesis by simp
qed

text \<open>
  Claim C3 as first stated has no condition on the ids. The guard of Apply tests
  \<^verbatim>\<open>!actionModal.userId\<close>, which is true for the user id 0: the modal opens for
  that user, role 3 is ticked and has no row for module 7, and Apply sends nothing.
\<close>

theorem apply_with_user_zero_creates_nothing_counterexample:
  "am_open (actionModal zero_user_modal_app) \<and>
   am_userId (actionModal zero_user_modal_app) = Some 0 \<and>
   am_moduleId (actionModal zero_user_modal_app) = Some 7 \<and>
   (3, True) \<in> set (Object_entries (am_selectedRoles (actionModal zero_user_modal_app))) \<and>
   permMap (permissions zero_user_modal_app) (perm_key 3 7) = None \<and>
   issued idle_world (snd (snd (applyActionModal offline zero_user_modal_app idle_world))) = []"
proof -
  have "permMap (permissions zero_user_modal_app) (perm_key 3 7) = None"
    by (simp add: zero_user_permissions permMap_None sample_permissions_def)
  then show ?thesis
    by (simp add: zero_user_entries zero_user_apply issued_def) (simp add: zero_user_modal)
qed

text \<open>
  Claim C4, as amended. When the action modal holds a user id and a module id that are
  both different from 0, and an action, the Apply step gives a selected role with an
  indexed permission row for (role, module) exactly one PUT, whose body is that row with
  only the actions list replaced: the toggled action appended when enabled and absent,
  removed when disabled and present, the list as it was otherwise. The other actions
  keep their order, and both field lists are those of the row.
\<close>

theorem apply_update_changes_only_toggled_action:
  assumes "am_userId (actionModal st) = Some u" "u \<noteq> 0"
    and "am_moduleId (actionModal st) = Some mid" "mid \<noteq> 0"
    and "am_action (actionModal st) = Some a"
    and "(r, en) \<in> set (Object_entries (am_selectedRoles (actionModal st)))"
    and "permMap (permissions st) (perm_key r mid) = Some perm"
  shows "filter (\<lambda>rq. rq_role rq = Some r) (issued w (snd (snd (applyActionModal net st w)))) =
         [\<lparr> rq_method = PUT, rq_url = urlAPi @ ''/api/permissions/'' @ opt_str (p_id perm),
            rq_body = Some (perm\<lparr> p_actions := newActions (p_actions perm) (action_str a) en \<rparr>) \<rparr>] \<and>
         newActions (p_actions perm) (action_str a) en =
           (if en \<and> action_str a \<notin> set (p_actions perm) then p_actions perm @ [action_str a]
            else if \<not> en \<and> action_str a \<in> set (p_actions perm)
              then filter (\<lambda>x. x \<noteq> action_str a) (p_actions perm)
            else p_actions perm) \<and>
         filter (\<lambda>x. x \<noteq> action_str a) (newActions (p_actions perm) (action_str a) en) =
           filter (\<lambda>x. x \<noteq> action_str a) (p_actions perm) \<and>
         p_visibleFields (perm\<lparr> p_actions := newActions (p_actions perm) (action_str a) en \<rparr>) =
           p_visibleFields perm \<and>
         p_editableFields (perm\<lparr> p_actions := newActions (p_actions perm) (action_str a) en \<rparr>) =
           p_editableFields perm"
  using assms(7)
  by (simp add: applyActionModal_issued_for_role [OF assms(1-6)] roleRequests_def
      put_permission_def newActions_def)

theorem apply_update_changes_only_toggled_action_witness:
  "am_userId (actionModal sample_modal_app) = Some 5 \<and> (5::int) \<noteq> 0 \<and>
   am_moduleId (actionModal sample_modal_app) = Some 7 \<and> (7::int) \<noteq> 0 \<and>
   am_action (actionModal sample_modal_app) = Some Update \<and>
   (1, False) \<in> set (Object_entries (am_selectedRoles (actionModal sample_modal_app))) \<and>
   permMap (permissions sample_modal_app) (perm_key 1 7) = Some (hd sample_permissions) \<and>
   filter (\<lambda>rq. rq_role rq = Some 1)
     (issued idle_world (snd (snd (applyActionModal offline sample_modal_app idle_world)))) =
     [\<lparr> rq_method = PUT, rq_url = urlAPi @ ''/api/permissions/10'',
        rq_body = Some \<lparr> p_id = Some 10, p_roleId = 1, p_moduleId = 7, p_actions = [''read''],
                         p_visibleFields = Some [''amount''], p_editableFields = Some [] \<rparr> \<rparr>]"
proof -
  have g: "am_userId (actionModal sample_modal_app) = Some 5" "(5::int) \<noteq> 0"
    "am_moduleId (actionModal sample_modal_app) = Some 7" "(7::int) \<noteq> 0"
    "am_action (actionModal sample_modal_app) = Some Update"
    by (simp_all add: sample_modal_app_def)
  have e: "(1, False) \<in> set (Object_entries (am_selectedRoles (actionModal sample_modal_app)))"
    by (simp add: sample_modal_app_def set_Object_entries impl_of_sample_selection)
  have p: "permMap (permissions sample_modal_app) (perm_key 1 7) = Some (hd sample_permissions)"
    by (simp add: sample_modal_app_def sample_app_def permMap_def sample_permissions_def)
  from g e p opt_str_10
    apply_update_changes_only_toggled_action [OF g e p, where w = idle_world and net = offline]
  show ?thesis by (simp add: sample_permissions_def newActions_def)
qed

text \<open>
  Claim C4 as first stated has no condition on the ids either. For the user with id 0,
  role 1 is selected and has a row for module 7, and Apply sends no PUT.
\<close>

theorem apply_with_user_zero_updates_nothing_counterexample:
  "am_open (actionModal zero_user_modal_app) \<and>
   am_userId (actionModal zero_user_modal_app) = Some 0 \<and>
   am_moduleId (actionModal zero_user_modal_app) = Some 7 \<and>
   (1, False) \<in> set (Object_entries (am_selectedRoles (actionModal zero_user_modal_app))) \<and>
   permMap (permissions zero_user_modal_app) (perm_key 1 7) = Some (hd sample_permissions) \<and>
   issued idle_world (snd (snd (applyActionModal offline zero_user_modal_app idle_world))) = []"
proof -
  have "permMap (permissions zero_user_modal_app) (perm_key 1 7) = Some (hd sample_permissions)"
    by (simp add: zero_user_permissions permMap_def sample_permissions_def)
  then show ?thesis
    by (simp add: zero_user_entries zero_user_apply issued_def) (simp add: zero_user_modal)
qed

text \<open>
  Claim C5. For a user without assigned roles a click on an action checkbox shows the
  notice and does nothing else: the state, and with it the action modal, is unchanged
  and no request is issued.
\<close>

theorem openActionModal_without_roles:
  assumes "userRoleIds (userRoles st) uid = []"
  shows "openActionModal st w uid mid a = (st, w\<lparr> alerts := alerts w @ [noRolesAlert] \<rparr>) \<and>
         actionModal (fst (openActionModal st w uid mid a)) = actionModal st \<and>
         issued w (snd (openActionModal st w uid mid a)) = [] \<and>
         alerts (snd (openActionModal st w uid mid a)) = alerts w @ [noRolesAlert]"
  using assms by (simp add: openActionModal_def userRolesObjects_def issued_def)

theorem openActionModal_without_roles_witness:
  "userRoleIds (userRoles sample_app) 6 = [] \<and>
   openActionModal sample_app idle_world 6 7 Delete =
     (sample_app, idle_world\<lparr> alerts := [noRolesAlert] \<rparr>) \<and>
   am_open (actionModal (fst (openActionModal sample_app idle_world 6 7 Delete))) = False \<and>
   issued idle_world (snd (openActionModal sample_app idle_world 6 7 Delete)) = []"
proof -
  have h: "userRoleIds (userRoles sample_app) 6 = []"
    by (simp add: sample_app_def sample_userRoles_def userRoleIds_def)
  have c: "am_open (actionModal sample_app) = False" "alerts idle_world = []"
    by (simp_all add: sample_app_def closedActionModal_def idle_world_def)
  from h c openActionModal_without_roles [OF h, where w = idle_world and mid = 7 and a = Delete]
  show ?thesis by (simp add: issued_def)
qed

section \<open>The fields editor\<close>

lemma find_userRole:
  "find (\<lambda>ur. ur_userId ur = uid) urs =
     (case filter (\<lambda>ur. ur_userId ur = uid) urs of [] \<Rightarrow> None | ur # _ \<Rightarrow> Some ur)"
  by (induction urs) simp_all

lemma find_userRole_None:
  "find (\<lambda>ur. ur_userId ur = uid) urs = None \<longleftrightarrow> userRoleIds urs uid = []"
  by (simp add: find_userRole userRoleIds_def split: list.splits)

lemma find_userRole_hd:
  "userRoleIds urs uid \<noteq> [] \<Longrightarrow>
   \<exists>rel. find (\<lambda>ur. ur_userId ur = uid) urs = Some rel \<and> ur_roleId rel = hd (userRoleIds urs uid)"
  by (auto simp: find_userRole userRoleIds_def split: list.splits)

lemma issued_awaitFetch: "issued w (snd (awaitFetch net w rq)) = [rq]"
  by (simp add: issued_def requests_awaitFetch)

lemma saveFieldsModal_issued:
  assumes "fm_moduleId (fieldsModal st) = Some mid" "mid \<noteq> 0"
    and "fm_roleId (fieldsModal st) = Some rid" "rid \<noteq> 0"
  shows "issued w (snd (snd (saveFieldsModal net st w))) =
     saveRequest (permissions st) (fieldsModal st) mid rid #
       (if snd (mutate net (server w) (saveRequest (permissions st) (fieldsModal st) mid rid))
        then map get_request
          [''/api/user/'', ''/api/module/'', ''/api/permissions/'', ''/api/userRole/'', ''/api/role/'']
        else [])"
proof -
  let ?rq = "saveRequest (permissions st) (fieldsModal st) mid rid"
  let ?w1 = "snd (awaitFetch net w ?rq)"
  have ok: "fst (awaitFetch net w ?rq) = snd (mutate net (server w) ?rq)"
    by (simp add: awaitFetch_def case_prod_beta)
  have r1: "requests ?w1 = requests w @ [?rq]" by (rule requests_awaitFetch)
  show ?thesis
  proof (cases "snd (mutate net (server w) ?rq)")
    case True
    with assms ok have "snd (snd (saveFieldsModal net st w)) = snd (snd (loadAll net st ?w1))"
      by (simp add: saveFieldsModal_def Let_def falsy_iff case_prod_beta
          split: completion.splits)
    with True r1 show ?thesis by (simp add: issued_def requests_loadAll)
  next
    case False
    with assms ok have "snd (snd (saveFieldsModal net st w)) = ?w1"
      by (simp add: saveFieldsModal_def Let_def falsy_iff case_prod_beta)
    with False r1 show ?thesis by (simp add: issued_def)
  qed
qed

lemma saveFieldsModal_rejected:
  assumes "fm_moduleId (fieldsModal st) = Some mid" "mid \<noteq> 0"
    and "fm_roleId (fieldsModal st) = Some rid" "rid \<noteq> 0"
    and "\<not> snd (mutate net (server w) (saveRequest (permissions st) (fieldsModal st) mid rid))"
  shows "saveFieldsModal net st w =
     (Threw, st,
      w\<lparr> server := fst (mutate net (server w) (saveRequest (permissions st) (fieldsModal st) mid rid)),
         requests := requests w @ [saveRequest (permissions st) (fieldsModal st) mid rid] \<rparr>)"
  using assms
  by (simp add: saveFieldsModal_def Let_def falsy_iff awaitFetch_def case_prod_beta)

text \<open>
  Claim C7, as amended. Opening the fields editor for a user without user-role links
  only shows the notice. Otherwise the role to edit is the role of the user's first
  link, whatever the module. When the stored module id and role id are both different
  from 0, Save first sends one request: for the first permission row of the snapshot
  with that (role, module) pair a PUT of the row with the new field lists and its
  actions as they were, and without such a row a POST of a new record with an empty
  actions list. Only the reads of the reload can follow it.
\<close>

theorem fields_editor_first_role_and_save:
  "(userRoleIds (userRoles st) uid = [] \<longrightarrow>
      openFieldsEditor parse st w uid m = (st, w\<lparr> alerts := alerts w @ [assignRoleAlert] \<rparr>)) \<and>
   (userRoleIds (userRoles st) uid \<noteq> [] \<longrightarrow>
      fm_open (fieldsModal (fst (openFieldsEditor parse st w uid m))) \<and>
      fm_roleId (fieldsModal (fst (openFieldsEditor parse st w uid m))) =
        Some (hd (userRoleIds (userRoles st) uid)) \<and>
      fm_moduleId (fieldsModal (fst (openFieldsEditor parse st w uid m))) = Some (m_id m)) \<and>
   (fm_moduleId (fieldsModal st) = Some mid \<and> mid \<noteq> 0 \<and>
    fm_roleId (fieldsModal st) = Some rid \<and> rid \<noteq> 0 \<longrightarrow>
      (\<exists>rest. issued w' (snd (snd (saveFieldsModal net st w'))) =
         (case find (\<lambda>p. p_roleId p = rid \<and> p_moduleId p = mid) (permissions st) of
            Some existing \<Rightarrow>
              \<lparr> rq_method = PUT, rq_url = urlAPi @ ''/api/permissions/'' @ opt_str (p_id existing),
                rq_body = Some \<lparr> p_id = p_id existing, p_roleId = p_roleId existing,
                                 p_moduleId = p_moduleId existing, p_actions = p_actions existing,
                                 p_visibleFields = Some (fm_visibleFields (fieldsModal st)),
                                 p_editableFields = Some (fm_editableFields (fieldsModal st)) \<rparr> \<rparr>
          | None \<Rightarrow>
              \<lparr> rq_method = POST, rq_url = urlAPi @ ''/api/permissions'',
                rq_body = Some \<lparr> p_id = None, p_roleId = rid, p_moduleId = mid, p_actions = [],
                                 p_visibleFields = Some (fm_visibleFields (fieldsModal st)),
                                 p_editableFields = Some (fm_editableFields (fieldsModal st)) \<rparr> \<rparr>)
         # rest \<and>
         list_all (\<lambda>rq. rq_method rq = GET) rest))"
proof -
  let ?expected =
    "case find (\<lambda>p. p_roleId p = rid \<and> p_moduleId p = mid) (permissions st) of
       Some existing \<Rightarrow>
         \<lparr> rq_method = PUT, rq_url = urlAPi @ ''/api/permissions/'' @ opt_str (p_id existing),
           rq_body = Some \<lparr> p_id = p_id existing, p_roleId = p_roleId existing,
                            p_moduleId = p_moduleId existing, p_actions = p_actions existing,
                            p_visibleFields = Some (fm_visibleFields (fieldsModal st)),
                            p_editableFields = Some (fm_editableFields (fieldsModal st)) \<rparr> \<rparr>
     | None \<Rightarrow>
         \<lparr> rq_method = POST, rq_url = urlAPi @ ''/api/permissions'',
           rq_body = Some \<lparr> p_id = None, p_roleId = rid, p_moduleId = mid, p_actions = [],
                            p_visibleFields = Some (fm_visibleFields (fieldsModal st)),
                            p_editableFields = Some (fm_editableFields (fieldsModal st)) \<rparr> \<rparr>"
  let ?rq = "saveRequest (permissions st) (fieldsModal st) mid rid"
  let ?rest = "if snd (mutate net (server w') ?rq)
        then map get_request
          [''/api/user/'', ''/api/module/'', ''/api/permissions/'', ''/api/userRole/'', ''/api/role/'']
        else []"
  have none: "openFieldsEditor parse st w uid m = (st, w\<lparr> alerts := alerts w @ [assignRoleAlert] \<rparr>)"
    if "userRoleIds (userRoles st) uid = []"
  proof -
    from that have "find (\<lambda>ur. ur_userId ur = uid) (userRoles st) = None"
      by (simp add: find_userRole_None)
    then show ?thesis by (simp add: openFieldsEditor_def)
  qed
  have some: "fm_open (fieldsModal (fst (openFieldsEditor parse st w uid m))) \<and>
      fm_roleId (fieldsModal (fst (openFieldsEditor parse st w uid m))) =
        Some (hd (userRoleIds (userRoles st) uid)) \<and>
      fm_moduleId (fieldsModal (fst (openFieldsEditor parse st w uid m))) = Some (m_id m)"
    if "userRoleIds (userRoles st) uid \<noteq> []"
  proof -
    from find_userRole_hd [OF that] obtain rel
      where "find (\<lambda>ur. ur_userId ur = uid) (userRoles st) = Some rel"
        "ur_roleId rel = hd (userRoleIds (userRoles st) uid)" by blast
    then show ?thesis by (simp add: openFieldsEditor_def Let_def)
  qed
  have rq: "?rq = ?expected"
    by (cases "find (\<lambda>p. p_roleId p = rid \<and> p_moduleId p = mid) (permissions st)")
       (simp_all add: saveRequest_def put_permission_def post_permission_def)
  have save: "\<exists>rest. issued w' (snd (snd (saveFieldsModal net st w'))) = ?expected # rest \<and>
      list_all (\<lambda>rq. rq_method rq = GET) rest"
    if g: "fm_moduleId (fieldsModal st) = Some mid \<and> mid \<noteq> 0 \<and>
      fm_roleId (fieldsModal st) = Some rid \<and> rid \<noteq> 0"
  proof (intro exI conjI)
    from g have "issued w' (snd (snd (saveFieldsModal net st w'))) = ?rq # ?rest"
      by (intro saveFieldsModal_issued) simp_all
    then show "issued w' (snd (snd (saveFieldsModal net st w'))) = ?expected # ?rest"
      by (simp only: rq)
    show "list_all (\<lambda>rq. rq_method rq = GET) ?rest"
      by (simp add: get_request_def)
  qed
  from none some save show ?thesis by blast
qed

theorem fields_editor_first_role_and_save_witness:
  "userRoleIds (userRoles sample_app) 6 = [] \<and>
   openFieldsEditor JSON_parse_table sample_app idle_world 6 sample_module =
     (sample_app, idle_world\<lparr> alerts := [assignRoleAlert] \<rparr>) \<and>
   userRoleIds (userRoles sample_app) 5 = [1, 2] \<and>
   fm_roleId (fieldsModal (fst (openFieldsEditor JSON_parse_table sample_app idle_world 5 sample_module))) =
     Some 1 \<and>
   fm_moduleId (fieldsModal (fst (openFieldsEditor JSON_parse_table sample_app idle_world 5 sample_module))) =
     Some 7 \<and>
   issued idle_world
     (snd (snd (saveFieldsModal offline
        (fst (openFieldsEditor JSON_parse_table sample_app idle_world 5 sample_module)) idle_world))) =
     [\<lparr> rq_method = PUT, rq_url = urlAPi @ ''/api/permissions/10'',
        rq_body = Some \<lparr> p_id = Some 10, p_roleId = 1, p_moduleId = 7, p_actions = [''read''],
                         p_visibleFields = Some [''amount''], p_editableFields = Some [] \<rparr> \<rparr>] \<and>
   issued idle_world
     (snd (snd (saveFieldsModal offline
        (fst (openFieldsEditor JSON_parse_table sample_app idle_world 5 (sample_module\<lparr> m_id := 8 \<rparr>)))
        idle_world))) =
     [\<lparr> rq_method = POST, rq_url = urlAPi @ ''/api/permissions'',
        rq_body = Some \<lparr> p_id = None, p_roleId = 1, p_moduleId = 8, p_actions = [],
                         p_visibleFields = Some [], p_editableFields = Some [] \<rparr> \<rparr>]"
proof -
  let ?st7 = "fst (openFieldsEditor JSON_parse_table sample_app idle_world 5 sample_module)"
  let ?st8 = "fst (openFieldsEditor JSON_parse_table sample_app idle_world 5 (sample_module\<lparr> m_id := 8 \<rparr>))"
  have u6: "userRoleIds (userRoles sample_app) 6 = []"
    and u5: "userRoleIds (userRoles sample_app) 5 = [1, 2]"
    by (simp_all add: sample_app_def sample_userRoles_def userRoleIds_def)
  have p7: "permMap sample_permissions (perm_key 1 7) = Some (hd sample_permissions)"
    by (simp add: permMap_def sample_permissions_def)
  have p8: "permMap sample_permissions (perm_key 1 8) = None"
    by (simp add: permMap_None sample_permissions_def)
  have fm7: "fieldsModal ?st7 =
      \<lparr> fm_open = True, fm_permId = Some 10, fm_moduleId = Some 7, fm_roleId = Some 1,
        fm_visibleFields = [''amount''], fm_editableFields = [],
        fm_allFields = JArr [JStr ''amount'', JStr ''date''] \<rparr>"
    and ps7: "permissions ?st7 = sample_permissions"
    using p7
    by (simp_all add: openFieldsEditor_def sample_app_def sample_userRoles_def sample_module_def
        normalizeFields_def or_empty_def Let_def sample_permissions_def)
  have fm8: "fieldsModal ?st8 =
      \<lparr> fm_open = True, fm_permId = None, fm_moduleId = Some 8, fm_roleId = Some 1,
        fm_visibleFields = [], fm_editableFields = [],
        fm_allFields = JArr [JStr ''amount'', JStr ''date''] \<rparr>"
    and ps8: "permissions ?st8 = sample_permissions"
    using p8
    by (simp_all add: openFieldsEditor_def sample_app_def sample_userRoles_def sample_module_def
        normalizeFields_def or_empty_def Let_def)
  have f7: "find (\<lambda>p. p_roleId p = 1 \<and> p_moduleId p = 7) sample_permissions = Some (hd sample_permissions)"
    and f8: "find (\<lambda>p. p_roleId p = 1 \<and> p_moduleId p = 8) sample_permissions = None"
    by (simp_all add: sample_permissions_def)
  have off: "\<And>s rq. snd (mutate offline s rq) = False"
    by (simp add: offline_def)
  have s7: "issued idle_world (snd (snd (saveFieldsModal offline ?st7 idle_world))) =
      [saveRequest (permissions ?st7) (fieldsModal ?st7) 7 1]"
    by (subst saveFieldsModal_issued [where mid = 7 and rid = 1]) (simp_all add: fm7 off)
  have s8: "issued idle_world (snd (snd (saveFieldsModal offline ?st8 idle_world))) =
      [saveRequest (permissions ?st8) (fieldsModal ?st8) 8 1]"
    by (subst saveFieldsModal_issued [where mid = 8 and rid = 1]) (simp_all add: fm8 off)
  have h7: "fm_moduleId (fieldsModal ?st7) = Some 7 \<and> (7::int) \<noteq> 0 \<and>
      fm_roleId (fieldsModal ?st7) = Some 1 \<and> (1::int) \<noteq> 0"
    by (simp add: fm7)
  have h8: "fm_moduleId (fieldsModal ?st8) = Some 8 \<and> (8::int) \<noteq> 0 \<and>
      fm_roleId (fieldsModal ?st8) = Some 1 \<and> (1::int) \<noteq> 0"
    by (simp add: fm8)
  note t6 = fields_editor_first_role_and_save [where st = sample_app and uid = 6 and
      parse = JSON_parse_table and w = idle_world and m = sample_module and mid = 7 and rid = 1 and
      net = offline and w' = idle_world]
  note t7 = fields_editor_first_role_and_save [where st = ?st7 and mid = 7 and rid = 1 and
      net = offline and w' = idle_world and uid = 5 and parse = JSON_parse_table and
      w = idle_world and m = sample_module]
  note t8 = fields_editor_first_role_and_save [where st = ?st8 and mid = 8 and rid = 1 and
      net = offline and w' = idle_world and uid = 5 and parse = JSON_parse_table and
      w = idle_world and m = sample_module]
  note t5 = fields_editor_first_role_and_save [where st = sample_app and uid = 5 and
      parse = JSON_parse_table and w = idle_world and m = sample_module and mid = 7 and rid = 1 and
      net = offline and w' = idle_world]
  have a: "openFieldsEditor JSON_parse_table sample_app idle_world 6 sample_module =
     (sample_app, idle_world\<lparr> alerts := [assignRoleAlert] \<rparr>)"
    using u6 t6 by (simp add: idle_world_def)
  have b: "fm_roleId (fieldsModal ?st7) = Some 1" "fm_moduleId (fieldsModal ?st7) = Some 7"
    using u5 t5 by (simp_all add: sample_module_def)
  have c: "issued idle_world (snd (snd (saveFieldsModal offline ?st7 idle_world))) =
     [\<lparr> rq_method = PUT, rq_url = urlAPi @ ''/api/permissions/10'',
        rq_body = Some \<lparr> p_id = Some 10, p_roleId = 1, p_moduleId = 7, p_actions = [''read''],
                         p_visibleFields = Some [''amount''], p_editableFields = Some [] \<rparr> \<rparr>]"
    using h7 s7 t7 by (simp add: ps7 f7 fm7 sample_permissions_def opt_str_10)
  have d: "issued idle_world (snd (snd (saveFieldsModal offline ?st8 idle_world))) =
     [\<lparr> rq_method = POST, rq_url = urlAPi @ ''/api/permissions'',
        rq_body = Some \<lparr> p_id = None, p_roleId = 1, p_moduleId = 8, p_actions = [],
                         p_visibleFields = Some [], p_editableFields = Some [] \<rparr> \<rparr>]"
    using h8 s8 t8 by (simp add: ps8 f8 fm8)
  from u6 u5 a b c d show ?thesis by simp
qed

text \<open>
  The claim as first stated has no condition on the ids. The guard of Save tests
  \<^verbatim>\<open>!fieldsModal.roleId\<close>, which is true for the role id 0: for a user whose first
  link names role 0 the editor opens, and Save sends nothing.
\<close>

theorem save_with_role_zero_counterexample:
  "userRoleIds (userRoles zero_app) 5 = [0] \<and>
   fm_open (fieldsModal (fst (openFieldsEditor JSON_parse_table zero_app idle_world 5 sample_module))) \<and>
   fm_roleId (fieldsModal (fst (openFieldsEditor JSON_parse_table zero_app idle_world 5 sample_module))) =
     Some 0 \<and>
   fm_moduleId (fieldsModal (fst (openFieldsEditor JSON_parse_table zero_app idle_world 5 sample_module))) =
     Some 7 \<and>
   issued idle_world
     (snd (snd (saveFieldsModal offline
        (fst (openFieldsEditor JSON_parse_table zero_app idle_world 5 sample_module)) idle_world))) = []"
  by (simp add: openFieldsEditor_def zero_app_def sample_app_def userRoleIds_def Let_def
      sample_module_def saveFieldsModal_def falsy_def issued_def)

text \<open>
  The normalisation case by case. A field list that is an array is passed through
  unchanged and is a sequence of names. An absent list is treated as the empty text, and
  the empty text as the text \<^verbatim>\<open>[]\<close>. When parsing fails the result is the empty
  sequence; when it succeeds the result is the parsed value as it is. Opening the editor
  stores the result and shows nothing to the user.
\<close>

lemma normalizeFields_cases:
  "normalizeFields parse (Some (FieldsArray xs)) = JArr (map JStr xs) \<and>
   names_sequence (normalizeFields parse (Some (FieldsArray xs))) \<and>
   normalizeFields parse None = normalizeFields parse (Some (FieldsString [])) \<and>
   (parse (if s = [] then ''[]'' else s) = None \<longrightarrow>
      normalizeFields parse (Some (FieldsString s)) = JArr []) \<and>
   (\<forall>v. parse (if s = [] then ''[]'' else s) = Some v \<longrightarrow>
      normalizeFields parse (Some (FieldsString s)) = v) \<and>
   (userRoleIds (userRoles st) uid \<noteq> [] \<longrightarrow>
      fm_allFields (fieldsModal (fst (openFieldsEditor parse st w uid m))) =
        normalizeFields parse (m_fields m) \<and>
      snd (openFieldsEditor parse st w uid m) = w)"
proof -
  have lst: "list_all is_JStr (map JStr xs)"
    by (induction xs) simp_all
  have ed: "fm_allFields (fieldsModal (fst (openFieldsEditor parse st w uid m))) =
        normalizeFields parse (m_fields m) \<and>
      snd (openFieldsEditor parse st w uid m) = w"
    if "userRoleIds (userRoles st) uid \<noteq> []"
  proof -
    from find_userRole_hd [OF that] obtain rel
      where "find (\<lambda>ur. ur_userId ur = uid) (userRoles st) = Some rel" by blast
    then show ?thesis by (simp add: openFieldsEditor_def Let_def)
  qed
  show ?thesis
    using lst ed by (simp add: normalizeFields_def names_sequence_def)
qed

lemma normalizeFields_cases_example:
  "normalizeFields JSON_parse_table (Some (FieldsArray [''amount'', ''date''])) =
     JArr [JStr ''amount'', JStr ''date''] \<and>
   JSON_parse_table ''{'' = None \<and>
   normalizeFields JSON_parse_table (Some (FieldsString ''{'')) = JArr [] \<and>
   JSON_parse_table ''[]'' = Some (JArr []) \<and>
   normalizeFields JSON_parse_table (Some (FieldsString [])) = JArr [] \<and>
   userRoleIds (userRoles sample_app) 5 \<noteq> [] \<and>
   fm_allFields (fieldsModal (fst (openFieldsEditor JSON_parse_table sample_app idle_world 5
       (sample_module\<lparr> m_fields := Some (FieldsString ''{'') \<rparr>)))) = JArr [] \<and>
   snd (openFieldsEditor JSON_parse_table sample_app idle_world 5
       (sample_module\<lparr> m_fields := Some (FieldsString ''{'') \<rparr>)) = idle_world"
proof -
  have p1: "JSON_parse_table (if ''{'' = [] then ''[]'' else ''{'') = None"
    and p2: "JSON_parse_table (if ([]::string) = [] then ''[]'' else []) = Some (JArr [])"
    and p3: "JSON_parse_table ''{'' = None" "JSON_parse_table ''[]'' = Some (JArr [])"
    by (simp_all add: JSON_parse_table_def)
  have u: "userRoleIds (userRoles sample_app) 5 \<noteq> []"
    by (simp add: sample_app_def sample_userRoles_def userRoleIds_def)
  note t1 = normalizeFields_cases [where parse = JSON_parse_table and xs = "[''amount'', ''date'']"
      and s = "''{''" and st = sample_app and uid = 5 and w = idle_world
      and m = "sample_module\<lparr> m_fields := Some (FieldsString ''{'') \<rparr>"]
  note t2 = normalizeFields_cases [where parse = JSON_parse_table and xs = "[]"
      and s = "[]" and st = sample_app and uid = 5 and w = idle_world and m = sample_module]
  have a: "normalizeFields JSON_parse_table (Some (FieldsArray [''amount'', ''date''])) =
     JArr [JStr ''amount'', JStr ''date'']"
    using t1 by simp
  have b: "normalizeFields JSON_parse_table (Some (FieldsString ''{'')) = JArr []"
    using p1 t1 by simp
  have c: "normalizeFields JSON_parse_table (Some (FieldsString [])) = JArr []"
    using p2 t2 by simp
  have d: "fm_allFields (fieldsModal (fst (openFieldsEditor JSON_parse_table sample_app idle_world 5
       (sample_module\<lparr> m_fields := Some (FieldsString ''{'') \<rparr>)))) = JArr []"
    "snd (openFieldsEditor JSON_parse_table sample_app idle_world 5
       (sample_module\<lparr> m_fields := Some (FieldsString ''{'') \<rparr>)) = idle_world"
    using u b t1 by simp_all
  from a b c d p3 u show ?thesis by simp
qed

text \<open>
  Claim C8. The field list of the editor is declared \<^verbatim>\<open>string[]\<close>, and the code
  normalises an array, an absent list and a text that does not parse; the claim says the
  result is a sequence of field names for every input. The parsed value is assigned
  unchecked, though. For a module whose field list is the text \<^verbatim>\<open>42\<close>, a JSON
  document, nothing is thrown: the editor opens without any notice and its field list
  is the number 42, which is not a sequence.
\<close>

theorem openFieldsEditor_number_text_not_sequence:
  "userRoleIds (userRoles sample_app) 5 = [1, 2] \<and>
   normalizeFields JSON_parse_table (Some (FieldsString ''42'')) = JNum 42 \<and>
   fm_open (fieldsModal (fst (openFieldsEditor JSON_parse_table sample_app idle_world 5
       (sample_module\<lparr> m_fields := Some (FieldsString ''42'') \<rparr>)))) \<and>
   fm_allFields (fieldsModal (fst (openFieldsEditor JSON_parse_table sample_app idle_world 5
       (sample_module\<lparr> m_fields := Some (FieldsString ''42'') \<rparr>)))) = JNum 42 \<and>
   \<not> names_sequence (fm_allFields (fieldsModal (fst (openFieldsEditor JSON_parse_table sample_app
       idle_world 5 (sample_module\<lparr> m_fields := Some (FieldsString ''42'') \<rparr>))))) \<and>
   snd (openFieldsEditor JSON_parse_table sample_app idle_world 5
       (sample_module\<lparr> m_fields := Some (FieldsString ''42'') \<rparr>)) = idle_world"
  by (simp add: openFieldsEditor_def sample_app_def sample_userRoles_def userRoleIds_def
      sample_module_def normalizeFields_def JSON_parse_table_def names_sequence_def Let_def)

section \<open>Rejected requests\<close>

text \<open>
  In the Apply step each \<^verbatim>\<open>fetch\<close> stands in a \<^verbatim>\<open>try\<close>: a rejected request is
  written to the console, and the reload and the closing of the modal follow.
\<close>

lemma applyActionModal_rejected_fetch_caught:
  "applyActionModal read_only
     (sample_app\<lparr> actionModal :=
        \<lparr> am_open = True, am_userId = Some 5, am_moduleId = Some 7, am_action = Some Create,
          am_selectedRoles = DAList.update 3 True DAList.empty, am_userRolesList = [] \<rparr> \<rparr>)
     (world_of (dataset_of sample_app)) =
   (Returned, sample_app,
    \<lparr> server = dataset_of sample_app,
      requests =
        post_permission \<lparr> p_id = None, p_roleId = 3, p_moduleId = 7, p_actions = [''create''],
                          p_visibleFields = Some [], p_editableFields = Some [] \<rparr> #
        map get_request
          [''/api/user/'', ''/api/module/'', ''/api/permissions/'', ''/api/userRole/'', ''/api/role/''],
      console =
        [post_permission \<lparr> p_id = None, p_roleId = 3, p_moduleId = 7, p_actions = [''create''],
                           p_visibleFields = Some [], p_editableFields = Some [] \<rparr>],
      alerts = [] \<rparr>)"
proof -
  have n: "permMap sample_permissions (perm_key 3 7) = None"
    by (simp add: permMap_None sample_permissions_def)
  have e: "Object_entries (DAList.update 3 True DAList.empty) = [(3, True)]"
    by (simp add: Object_entries_def DAList.update.rep_eq DAList.empty.rep_eq array_index_def)
  show ?thesis
    using n
    by (simp add: applyActionModal_def falsy_def e applyLoop_def applyRole_def tryFetch_def
        awaitFetch_def loadAll_def read_only_def world_of_def dataset_of_def sample_app_def Let_def)
qed

text \<open>
  Claim C6 says the same of every mutating workflow, and of Save in particular. The
  \<^verbatim>\<open>fetch\<close> of \<^verbatim>\<open>saveFieldsModal\<close> stands outside any \<^verbatim>\<open>try\<close>. With the
  editor open for user 5 and module 7, on a network that rejects the PUT and would
  answer the reads: the handler's promise is rejected, nothing is written to the
  console, no read is issued and the modal stays open.
\<close>

theorem saveFieldsModal_rejected_fetch_uncaught:
  "fm_open (fieldsModal (fst (openFieldsEditor JSON_parse_table sample_app
       (world_of (dataset_of sample_app)) 5 sample_module))) \<and>
   saveFieldsModal read_only
     (fst (openFieldsEditor JSON_parse_table sample_app (world_of (dataset_of sample_app)) 5 sample_module))
     (world_of (dataset_of sample_app)) =
   (Threw,
    fst (openFieldsEditor JSON_parse_table sample_app (world_of (dataset_of sample_app)) 5 sample_module),
    \<lparr> server = dataset_of sample_app,
      requests =
        [\<lparr> rq_method = PUT, rq_url = urlAPi @ ''/api/permissions/10'',
           rq_body = Some \<lparr> p_id = Some 10, p_roleId = 1, p_moduleId = 7, p_actions = [''read''],
                            p_visibleFields = Some [''amount''], p_editableFields = Some [] \<rparr> \<rparr>],
      console = [], alerts = [] \<rparr>)"
proof -
  let ?w = "world_of (dataset_of sample_app)"
  let ?st = "fst (openFieldsEditor JSON_parse_table sample_app ?w 5 sample_module)"
  have p: "permMap sample_permissions (perm_key 1 7) = Some (hd sample_permissions)"
    by (simp add: permMap_def sample_permissions_def)
  have fm: "fieldsModal ?st =
      \<lparr> fm_open = True, fm_permId = Some 10, fm_moduleId = Some 7, fm_roleId = Some 1,
        fm_visibleFields = [''amount''], fm_editableFields = [],
        fm_allFields = JArr [JStr ''amount'', JStr ''date''] \<rparr>"
    and ps: "permissions ?st = sample_permissions"
    using p
    by (simp_all add: openFieldsEditor_def sample_app_def sample_userRoles_def sample_module_def
        normalizeFields_def or_empty_def Let_def sample_permissions_def)
  have rq: "saveRequest (permissions ?st) (fieldsModal ?st) 7 1 =
      \<lparr> rq_method = PUT, rq_url = urlAPi @ ''/api/permissions/10'',
        rq_body = Some \<lparr> p_id = Some 10, p_roleId = 1, p_moduleId = 7, p_actions = [''read''],
                         p_visibleFields = Some [''amount''], p_editableFields = Some [] \<rparr> \<rparr>"
    by (simp add: ps fm saveRequest_def sample_permissions_def put_permission_def opt_str_10)
  have "saveFieldsModal read_only ?st ?w =
      (Threw, ?st,
       ?w\<lparr> server := fst (mutate read_only (server ?w) (saveRequest (permissions ?st) (fieldsModal ?st) 7 1)),
           requests := requests ?w @ [saveRequest (permissions ?st) (fieldsModal ?st) 7 1] \<rparr>)"
    by (rule saveFieldsModal_rejected) (simp_all add: fm read_only_def)
  then have thrown: "saveFieldsModal read_only ?st ?w =
      (Threw, ?st,
       \<lparr> server = dataset_of sample_app,
         requests =
           [\<lparr> rq_method = PUT, rq_url = urlAPi @ ''/api/permissions/10'',
              rq_body = Some \<lparr> p_id = Some 10, p_roleId = 1, p_moduleId = 7, p_actions = [''read''],
                               p_visibleFields = Some [''amount''], p_editableFields = Some [] \<rparr> \<rparr>],
         console = [], alerts = [] \<rparr>)"
    unfolding rq by (simp add: world_of_def read_only_def)
  have "fm_open (fieldsModal ?st)" by (simp add: fm)
  with thrown show ?thesis by simp
qed

section \<open>The guards of Apply and Save\<close>

text \<open>
  Claim C10. The guards test falsiness. When the action modal's user id or module id is
  \<^verbatim>\<open>null\<close> or 0, or its action is \<^verbatim>\<open>null\<close>, Apply returns at once: no request, no
  reload, the state as it was, so an open modal stays open. When the fields modal's
  module id or role id is \<^verbatim>\<open>null\<close> or 0, Save only closes the modal: no request and
  no reload.
\<close>

theorem guards_test_falsiness:
  "(am_userId (actionModal st) = None \<or> am_userId (actionModal st) = Some 0 \<or>
    am_moduleId (actionModal st) = None \<or> am_moduleId (actionModal st) = Some 0 \<or>
    am_action (actionModal st) = None
      \<longrightarrow> applyActionModal net st w = (Returned, st, w)) \<and>
   (fm_moduleId (fieldsModal st) = None \<or> fm_moduleId (fieldsModal st) = Some 0 \<or>
    fm_roleId (fieldsModal st) = None \<or> fm_roleId (fieldsModal st) = Some 0
      \<longrightarrow> saveFieldsModal net st w =
            (Returned, st\<lparr> fieldsModal := (fieldsModal st)\<lparr> fm_open := False \<rparr> \<rparr>, w))"
  by (auto simp: applyActionModal_def saveFieldsModal_def Let_def falsy_iff)

theorem guards_test_falsiness_witness:
  "am_open (actionModal (fst (openActionModal zero_app idle_world 5 0 Read))) \<and>
   am_moduleId (actionModal (fst (openActionModal zero_app idle_world 5 0 Read))) = Some 0 \<and>
   applyActionModal offline (fst (openActionModal zero_app idle_world 5 0 Read)) idle_world =
     (Returned, fst (openActionModal zero_app idle_world 5 0 Read), idle_world) \<and>
   fm_roleId (fieldsModal (fst (openFieldsEditor JSON_parse_table zero_app idle_world 5 sample_module))) = Some 0 \<and>
   fst (saveFieldsModal offline
          (fst (openFieldsEditor JSON_parse_table zero_app idle_world 5 sample_module)) idle_world) = Returned \<and>
   snd (snd (saveFieldsModal offline
          (fst (openFieldsEditor JSON_parse_table zero_app idle_world 5 sample_module)) idle_world)) = idle_world \<and>
   \<not> fm_open (fieldsModal (fst (snd (saveFieldsModal offline
          (fst (openFieldsEditor JSON_parse_table zero_app idle_world 5 sample_module)) idle_world))))"
proof -
  let ?st = "fst (openActionModal zero_app idle_world 5 0 Read)"
  let ?st' = "fst (openFieldsEditor JSON_parse_table zero_app idle_world 5 sample_module)"
  have a: "am_open (actionModal ?st)" "am_moduleId (actionModal ?st) = Some 0"
    by (simp_all add: openActionModal_def userRolesObjects_def userRoleIds_def zero_app_def
        sample_app_def Let_def)
  have f: "fm_roleId (fieldsModal ?st') = Some 0"
    by (simp add: openFieldsEditor_def zero_app_def sample_app_def Let_def)
  from a f guards_test_falsiness [of ?st offline idle_world]
    guards_test_falsiness [of ?st' offline idle_world]
  show ?thesis by simp
qed

section \<open>Applying a selection twice\<close>

text \<open>
  On the server of the specification, the requests of one Apply step leave every row of
  the selection in the state the selection asks for, and the requests of a second Apply
  step over the reloaded snapshot change nothing.
\<close>

lemma fresh_id_bound: "p \<in> set ps \<Longrightarrow> p_id p = Some i \<Longrightarrow> i < fresh_id ps"
  unfolding fresh_id_def
  by (induction ps) (auto split: option.splits)

lemma fresh_id_fresh: "Some (fresh_id ps) \<notin> set (map p_id ps)"
proof
  assume "Some (fresh_id ps) \<in> set (map p_id ps)"
  then obtain p where "p \<in> set ps" "p_id p = Some (fresh_id ps)" by auto
  from fresh_id_bound [OF this] show False by simp
qed

lemma put_url_inj:
  "urlAPi @ ''/api/permissions/'' @ opt_str (Some i) =
   urlAPi @ ''/api/permissions/'' @ opt_str (Some j) \<longleftrightarrow> i = j"
  by (auto simp: opt_str_def dest: num_str_inj)

lemma serve_post:
  "serve_permissions S (post_permission body) = S @ [body\<lparr> p_id := Some (fresh_id S) \<rparr>]"
  by (simp add: serve_permissions_def post_permission_def)

lemma ids_unique_same_id:
  "ids_unique S \<Longrightarrow> p \<in> set S \<Longrightarrow> q \<in> set S \<Longrightarrow> p_id q = p_id p \<Longrightarrow> q = p"
  unfolding ids_unique_def
  by (metis distinct_map inj_onD)

lemma ids_unique_Some: "ids_unique S \<Longrightarrow> p \<in> set S \<Longrightarrow> \<exists>i. p_id p = Some i"
  unfolding ids_unique_def by (cases "p_id p") force+

lemma serve_put_own:
  assumes "ids_unique S" "p \<in> set S"
  shows "serve_permissions S (put_permission (p_id p) body) =
     map (\<lambda>q. if q = p then body\<lparr> p_id := p_id p \<rparr> else q) S"
proof -
  from ids_unique_Some [OF assms] obtain i where i: "p_id p = Some i" by blast
  have "map (\<lambda>q. if p_id q \<noteq> None \<and>
            urlAPi @ ''/api/permissions/'' @ opt_str (p_id p) =
            urlAPi @ ''/api/permissions/'' @ opt_str (p_id q)
          then body\<lparr> p_id := p_id q \<rparr> else q) S =
      map (\<lambda>q. if q = p then body\<lparr> p_id := p_id p \<rparr> else q) S"
  proof (rule map_cong [OF refl])
    fix q assume q: "q \<in> set S"
    from ids_unique_Some [OF assms(1) q] obtain j where j: "p_id q = Some j" by blast
    have "i = j \<longleftrightarrow> q = p"
      using ids_unique_same_id [OF assms q] i j by auto
    then show "(if p_id q \<noteq> None \<and>
            urlAPi @ ''/api/permissions/'' @ opt_str (p_id p) =
            urlAPi @ ''/api/permissions/'' @ opt_str (p_id q)
          then body\<lparr> p_id := p_id q \<rparr> else q) =
        (if q = p then body\<lparr> p_id := p_id p \<rparr> else q)"
      by (simp only: i j put_url_inj) auto
  qed
  then show ?thesis
    by (simp add: serve_permissions_def put_permission_def)
qed

lemma permMap_map_same_keys:
  assumes "\<And>q. q \<in> set S \<Longrightarrow> p_roleId (f q) = p_roleId q \<and> p_moduleId (f q) = p_moduleId q"
  shows "permMap (map f S) k = map_option f (permMap S k)"
  using assms
proof (induction S rule: rev_induct)
  case Nil
  then show ?case by (simp add: permMap_Nil)
next
  case (snoc x xs)
  then have "permMap (map f xs) k = map_option f (permMap xs k)"
    and "p_roleId (f x) = p_roleId x" "p_moduleId (f x) = p_moduleId x"
    by simp_all
  then show ?case
    using permMap_snoc [of "map f xs" "f x"] by (simp add: permMap_snoc)
qed

lemma newActions_mem: "t \<in> set (newActions acts t en) \<longleftrightarrow> en"
  by (auto simp: newActions_def Let_def)

lemma newActions_same: "(t \<in> set acts \<longleftrightarrow> en) \<Longrightarrow> newActions acts t en = acts"
  by (auto simp: newActions_def Let_def)

lemma ids_unique_map:
  "(\<And>q. q \<in> set S \<Longrightarrow> p_id (f q) = p_id q) \<Longrightarrow> ids_unique (map f S) = ids_unique S"
proof -
  assume "\<And>q. q \<in> set S \<Longrightarrow> p_id (f q) = p_id q"
  then have "map p_id (map f S) = map p_id S" by simp
  then show ?thesis by (simp only: ids_unique_def)
qed

lemma ids_unique_post:
  "ids_unique S \<Longrightarrow> ids_unique (S @ [body\<lparr> p_id := Some (fresh_id S) \<rparr>])"
  using fresh_id_fresh [of S] by (simp add: ids_unique_def)

lemma apply_step:
  assumes U: "ids_unique S"
    and same: "permMap S (perm_key r mid) = pm (perm_key r mid)"
  shows "ids_unique (foldl serve_permissions S (roleRequests pm mid a (r, en))) \<and>
     grants (permMap (foldl serve_permissions S (roleRequests pm mid a (r, en))) (perm_key r mid)) a = en \<and>
     (\<forall>k. k \<noteq> perm_key r mid \<longrightarrow>
        permMap (foldl serve_permissions S (roleRequests pm mid a (r, en))) k = permMap S k)"
proof (cases "pm (perm_key r mid)")
  case None
  show ?thesis
  proof (cases en)
    case False
    with None same show ?thesis
      using U by (simp add: roleRequests_def grants_def)
  next
    case True
    let ?new = "\<lparr> p_id = Some (fresh_id S), p_roleId = r, p_moduleId = mid,
        p_actions = [action_str a], p_visibleFields = Some [], p_editableFields = Some [] \<rparr>"
    from None True have S': "foldl serve_permissions S (roleRequests pm mid a (r, en)) = S @ [?new]"
      by (simp add: roleRequests_def serve_post)
    have "ids_unique (S @ [?new])"
      using ids_unique_post [OF U, of "\<lparr> p_id = None, p_roleId = r, p_moduleId = mid,
        p_actions = [action_str a], p_visibleFields = Some [], p_editableFields = Some [] \<rparr>"]
      by simp
    moreover have "permMap (S @ [?new]) = (permMap S)(perm_key r mid \<mapsto> ?new)"
      by (simp add: permMap_snoc)
    ultimately show ?thesis
      unfolding S' using True by (simp add: grants_def)
  qed
next
  case (Some p)
  with same have pS: "permMap S (perm_key r mid) = Some p" by simp
  from permMap_Some [OF pS] have p: "p \<in> set S" and key: "p_roleId p = r" "p_moduleId p = mid"
    by simp_all
  let ?p' = "p\<lparr> p_actions := newActions (p_actions p) (action_str a) en \<rparr>"
  let ?f = "\<lambda>q. if q = p then ?p' else q"
  have body: "?p'\<lparr> p_id := p_id p \<rparr> = ?p'" by simp
  from Some have "foldl serve_permissions S (roleRequests pm mid a (r, en)) =
      serve_permissions S (put_permission (p_id p) ?p')"
    by (simp add: roleRequests_def)
  also have "\<dots> = map ?f S"
    by (simp only: serve_put_own [OF U p] body)
  finally have S': "foldl serve_permissions S (roleRequests pm mid a (r, en)) = map ?f S" .
  have ids: "ids_unique (map ?f S)"
    using U by (subst ids_unique_map) simp_all
  have pm': "permMap (map ?f S) k = map_option ?f (permMap S k)" for k
    by (rule permMap_map_same_keys) simp
  have at: "grants (permMap (map ?f S) (perm_key r mid)) a = en"
    by (simp add: pm' pS grants_def newActions_mem)
  have other: "permMap (map ?f S) k = permMap S k" if "k \<noteq> perm_key r mid" for k
  proof (cases "permMap S k")
    case None
    then show ?thesis by (simp add: pm')
  next
    case (Some q)
    from permMap_Some [OF this] that key have "q \<noteq> p" by auto
    with Some show ?thesis by (simp add: pm')
  qed
  from ids at other show ?thesis by (simp only: S') blast
qed

lemma apply_all_invariant:
  assumes "ids_unique ps" "distinct (map fst es)"
  shows "ids_unique (foldl serve_permissions ps (concat (map (roleRequests (permMap ps) mid a) es))) \<and>
     (\<forall>e \<in> set es.
        grants (permMap (foldl serve_permissions ps (concat (map (roleRequests (permMap ps) mid a) es)))
          (perm_key (fst e) mid)) a = snd e) \<and>
     (\<forall>k. k \<notin> (\<lambda>e. perm_key (fst e) mid) ` set es \<longrightarrow>
        permMap (foldl serve_permissions ps (concat (map (roleRequests (permMap ps) mid a) es))) k =
        permMap ps k)"
  using assms(2)
proof (induction es rule: rev_induct)
  case Nil
  then show ?case using assms(1) by simp
next
  case (snoc e xs)
  let ?S = "foldl serve_permissions ps (concat (map (roleRequests (permMap ps) mid a) xs))"
  let ?S' = "foldl serve_permissions ?S (roleRequests (permMap ps) mid a (fst e, snd e))"
  from snoc.prems have d: "distinct (map fst xs)" and new: "fst e \<notin> fst ` set xs" by simp_all
  from snoc.IH [OF d] have U: "ids_unique ?S"
    and prev: "\<And>e'. e' \<in> set xs \<Longrightarrow> grants (permMap ?S (perm_key (fst e') mid)) a = snd e'"
    and rest: "\<And>k. k \<notin> (\<lambda>e. perm_key (fst e) mid) ` set xs \<Longrightarrow> permMap ?S k = permMap ps k"
    by blast+
  have "perm_key (fst e) mid \<notin> (\<lambda>e. perm_key (fst e) mid) ` set xs"
  proof
    assume "perm_key (fst e) mid \<in> (\<lambda>e. perm_key (fst e) mid) ` set xs"
    then obtain e' where e': "e' \<in> set xs" and "perm_key (fst e) mid = perm_key (fst e') mid"
      by blast
    then have "fst e = fst e'" by simp
    with e' have "fst e \<in> fst ` set xs" by simp
    with new show False by contradiction
  qed
  then have same: "permMap ?S (perm_key (fst e) mid) = permMap ps (perm_key (fst e) mid)"
    by (rule rest)
  from apply_step [where pm = "permMap ps" and S = ?S and r = "fst e" and mid = mid and a = a
      and en = "snd e", OF U same] have U': "ids_unique ?S'"
    and at: "grants (permMap ?S' (perm_key (fst e) mid)) a = snd e"
    and other: "\<And>k. k \<noteq> perm_key (fst e) mid \<Longrightarrow> permMap ?S' k = permMap ?S k"
    by blast+
  have eq: "foldl serve_permissions ps (concat (map (roleRequests (permMap ps) mid a) (xs @ [e]))) = ?S'"
    by simp
  have b: "grants (permMap ?S' (perm_key (fst e') mid)) a = snd e'" if "e' \<in> set (xs @ [e])" for e'
  proof (cases "e' = e")
    case True
    with at show ?thesis by simp
  next
    case False
    with that have in_xs: "e' \<in> set xs" by simp
    then have "fst e' \<in> fst ` set xs" by (rule imageI)
    with new have "fst e' \<noteq> fst e" by metis
    then have "perm_key (fst e') mid \<noteq> perm_key (fst e) mid" by simp
    from other [OF this] prev [OF in_xs] show ?thesis by simp
  qed
  have c: "permMap ?S' k = permMap ps k"
    if "k \<notin> (\<lambda>e. perm_key (fst e) mid) ` set (xs @ [e])" for k
  proof -
    from that have "k \<noteq> perm_key (fst e) mid" and "k \<notin> (\<lambda>e. perm_key (fst e) mid) ` set xs"
      by auto
    from other [OF this(1)] rest [OF this(2)] show ?thesis by simp
  qed
  from U' b c show ?case by (simp only: eq) blast
qed

lemma apply_again_step:
  assumes U: "ids_unique S" and g: "grants (permMap S (perm_key r mid)) a = en"
  shows "foldl serve_permissions S (roleRequests (permMap S) mid a (r, en)) = S"
proof (cases "permMap S (perm_key r mid)")
  case None
  with g show ?thesis by (simp add: roleRequests_def grants_def)
next
  case (Some p)
  from permMap_Some [OF this] have p: "p \<in> set S" by simp
  from g Some have "newActions (p_actions p) (action_str a) en = p_actions p"
    by (intro newActions_same) (simp add: grants_def)
  then have body: "p\<lparr> p_actions := newActions (p_actions p) (action_str a) en \<rparr> = p" by simp
  have "serve_permissions S (put_permission (p_id p) p) = map (\<lambda>q. if q = p then p\<lparr> p_id := p_id p \<rparr> else q) S"
    by (rule serve_put_own [OF U p])
  also have "\<dots> = S" by (intro map_idI) simp
  finally show ?thesis using Some by (simp add: roleRequests_def body)
qed

lemma apply_again_all:
  assumes "ids_unique S"
    and "\<And>e. e \<in> set es \<Longrightarrow> grants (permMap S (perm_key (fst e) mid)) a = snd e"
  shows "foldl serve_permissions S (concat (map (roleRequests (permMap S) mid a) es)) = S"
  using assms(2)
proof (induction es)
  case Nil
  then show ?case by simp
next
  case (Cons e es)
  have "foldl serve_permissions S (roleRequests (permMap S) mid a (fst e, snd e)) = S"
    by (rule apply_again_step [OF assms(1)]) (simp add: Cons.prems)
  then show ?case using Cons by simp
qed

lemma server_tryFetch:
  "sv_rejects (server w) = [] \<Longrightarrow>
   server (tryFetch spec_server w rq) =
     (server w)\<lparr> sv_data := (sv_data (server w))\<lparr> d_permissions :=
        serve_permissions (d_permissions (sv_data (server w))) rq \<rparr> \<rparr>"
  by (simp add: tryFetch_def awaitFetch_def spec_server_def)

lemma server_applyRole:
  assumes "sv_rejects (server w) = []"
  shows "d_permissions (sv_data (server (applyRole spec_server pm mid a w e))) =
       foldl serve_permissions (d_permissions (sv_data (server w))) (roleRequests pm mid a e) \<and>
     sv_rejects (server (applyRole spec_server pm mid a w e)) = [] \<and>
     sv_reads_fail (server (applyRole spec_server pm mid a w e)) = sv_reads_fail (server w)"
  using assms
  by (simp add: applyRole_def roleRequests_def server_tryFetch split: option.splits)

lemma server_applyLoop:
  "sv_rejects (server w) = [] \<Longrightarrow>
   d_permissions (sv_data (server (applyLoop spec_server pm mid a w es))) =
     foldl serve_permissions (d_permissions (sv_data (server w)))
       (concat (map (roleRequests pm mid a) es)) \<and>
   sv_rejects (server (applyLoop spec_server pm mid a w es)) = [] \<and>
   sv_reads_fail (server (applyLoop spec_server pm mid a w es)) = sv_reads_fail (server w)"
proof (induction es arbitrary: w)
  case Nil
  then show ?case by (simp add: applyLoop_def)
next
  case (Cons e es)
  let ?w = "applyRole spec_server pm mid a w e"
  from server_applyRole [OF Cons.prems, of pm mid a e]
  have r: "sv_rejects (server ?w) = []"
    and d: "d_permissions (sv_data (server ?w)) =
      foldl serve_permissions (d_permissions (sv_data (server w))) (roleRequests pm mid a e)"
    and f: "sv_reads_fail (server ?w) = sv_reads_fail (server w)"
    by simp_all
  have "applyLoop spec_server pm mid a w (e # es) = applyLoop spec_server pm mid a ?w es"
    by (simp add: applyLoop_def)
  with Cons.IH [OF r] d f show ?case by simp
qed

lemma loadAll_spec_server:
  "\<not> sv_reads_fail (server w) \<Longrightarrow>
   fst (loadAll spec_server st w) = Returned \<and>
   permissions (fst (snd (loadAll spec_server st w))) = d_permissions (sv_data (server w)) \<and>
   actionModal (fst (snd (loadAll spec_server st w))) = actionModal st \<and>
   server (snd (snd (loadAll spec_server st w))) = server w"
  by (simp add: loadAll_def spec_server_def)

lemma applyActionModal_spec_server:
  assumes "am_userId (actionModal st) = Some u" "u \<noteq> 0"
    and "am_moduleId (actionModal st) = Some mid" "mid \<noteq> 0"
    and "am_action (actionModal st) = Some a"
    and "sv_rejects (server w) = []" "\<not> sv_reads_fail (server w)"
  shows "server_rows (applyActionModal spec_server st w) =
       foldl serve_permissions (d_permissions (sv_data (server w)))
         (concat (map (roleRequests (permMap (permissions st)) mid a)
            (Object_entries (am_selectedRoles (actionModal st))))) \<and>
     permissions (fst (snd (applyActionModal spec_server st w))) =
       server_rows (applyActionModal spec_server st w) \<and>
     sv_rejects (server (snd (snd (applyActionModal spec_server st w)))) = [] \<and>
     \<not> sv_reads_fail (server (snd (snd (applyActionModal spec_server st w))))"
proof -
  let ?w1 = "applyLoop spec_server (permMap (permissions st)) mid a w
      (Object_entries (am_selectedRoles (actionModal st)))"
  note loop = server_applyLoop [OF assms(6), of "permMap (permissions st)" mid a
      "Object_entries (am_selectedRoles (actionModal st))"]
  from loop assms(7) have nf: "\<not> sv_reads_fail (server ?w1)" by simp
  from loadAll_spec_server [OF nf, of st] obtain st2 w2
    where l: "loadAll spec_server st ?w1 = (Returned, st2, w2)"
      and "permissions st2 = d_permissions (sv_data (server ?w1))" "server w2 = server ?w1"
    by (cases "loadAll spec_server st ?w1") auto
  moreover from assms(1-5) l have "applyActionModal spec_server st w =
      (Returned, st2\<lparr> actionModal := closedActionModal \<rparr>, w2)"
    by (simp add: applyActionModal_def Let_def falsy_iff)
  ultimately show ?thesis using loop nf by (simp add: server_rows_def)
qed

lemma Object_entries_single: "Object_entries (DAList.update k v DAList.empty) = [(k, v)]"
  by (simp add: Object_entries_def DAList.update.rep_eq DAList.empty.rep_eq)

lemma sample_index:
  "permMap sample_permissions (perm_key 1 7) = Some (hd sample_permissions)"
  "permMap sample_permissions (perm_key 3 7) = None"
  "permMap sample_permissions (perm_key 4 7) = None"
  "permMap (tl sample_permissions) (perm_key 1 7) = None"
  by (simp_all add: permMap_def sample_permissions_def)

lemma rejected_once_then_accepted:
  "server_rows (applyActionModal spec_server role3_modal_app (world_of (sample_server [True]))) =
     sample_permissions \<and>
   server_rows (applyTwice spec_server role3_modal_app (world_of (sample_server [True]))) =
     sample_permissions @
     [\<lparr> p_id = Some 12, p_roleId = 3, p_moduleId = 7, p_actions = [''create''],
        p_visibleFields = Some [], p_editableFields = Some [] \<rparr>]"
proof -
  have fresh: "fresh_id sample_permissions = 12"
    by (simp add: fresh_id_def sample_permissions_def)
  show ?thesis
    by (simp add: server_rows_def applyTwice_def applyActionModal_def falsy_def Let_def
        role3_modal_app_def sample_app_def Object_entries_single applyLoop_def applyRole_def
        sample_index tryFetch_def awaitFetch_def loadAll_def spec_server_def world_of_def
        sample_server_def dataset_of_def serve_post [unfolded post_permission_def]
        post_permission_def fresh closedActionModal_def)
qed


lemma num_str_eq_iff: "num_str a = num_str b \<longleftrightarrow> a = b"
  by (auto dest: num_str_inj)

lemma stale_snapshot_then_fresh:
  "map p_actions (server_rows (applyActionModal spec_server stale_modal_app
       (world_of (sample_server [])))) = [[''read''], [''read'', ''update'']] \<and>
   map p_actions (server_rows (applyTwice spec_server stale_modal_app
       (world_of (sample_server [])))) = [[], [''read'', ''update'']]"
proof -
  have put: "serve_permissions sample_permissions
      (put_permission (Some 10)
         \<lparr> p_id = Some 10, p_roleId = 1, p_moduleId = 7, p_actions = [],
           p_visibleFields = Some [''amount''], p_editableFields = Some [] \<rparr>) =
      [\<lparr> p_id = Some 10, p_roleId = 1, p_moduleId = 7, p_actions = [],
         p_visibleFields = Some [''amount''], p_editableFields = Some [] \<rparr>,
       \<lparr> p_id = Some 11, p_roleId = 2, p_moduleId = 7, p_actions = [''read'', ''update''],
         p_visibleFields = Some [''date''], p_editableFields = None \<rparr>]"
    by (simp add: serve_permissions_def put_permission_def sample_permissions_def opt_str_def
        num_str_eq_iff)
  have new: "newActions [''read''] ''read'' False = []"
    by (simp add: newActions_def)
  have hd: "hd sample_permissions =
      \<lparr> p_id = Some 10, p_roleId = 1, p_moduleId = 7, p_actions = [''read''],
        p_visibleFields = Some [''amount''], p_editableFields = Some [] \<rparr>"
    by (simp add: sample_permissions_def)
  have once: "applyActionModal spec_server stale_modal_app (world_of (sample_server [])) =
      (Returned, sample_app,
       \<lparr> server = sample_server [],
         requests = map get_request
           [''/api/user/'', ''/api/module/'', ''/api/permissions/'', ''/api/userRole/'', ''/api/role/''],
         console = [], alerts = [] \<rparr>)"
    by (simp add: applyActionModal_def falsy_def Let_def stale_modal_app_def sample_app_def
        Object_entries_single applyLoop_def applyRole_def sample_index loadAll_def
        spec_server_def world_of_def sample_server_def dataset_of_def)
  have rows1: "server_rows (applyActionModal spec_server stale_modal_app (world_of (sample_server []))) =
      sample_permissions"
    unfolding once by (simp add: server_rows_def sample_server_def dataset_of_def sample_app_def)
  have st: "actionModal stale_modal_app =
         \<lparr> am_open = True, am_userId = Some 5, am_moduleId = Some 7, am_action = Some Read,
           am_selectedRoles = DAList.update 1 False DAList.empty, am_userRolesList = [] \<rparr>"
    by (simp add: stale_modal_app_def)
  have rows2: "server_rows (applyTwice spec_server stale_modal_app (world_of (sample_server []))) =
      serve_permissions sample_permissions
      (put_permission (Some 10)
         \<lparr> p_id = Some 10, p_roleId = 1, p_moduleId = 7, p_actions = [],
           p_visibleFields = Some [''amount''], p_editableFields = Some [] \<rparr>)"
    unfolding applyTwice_def Let_def once
    by (simp add: st server_rows_def applyActionModal_def falsy_def Let_def sample_app_def
        Object_entries_single applyLoop_def applyRole_def sample_index hd new tryFetch_def
        awaitFetch_def loadAll_def spec_server_def sample_server_def dataset_of_def)
  show ?thesis
    by (simp add: rows1 rows2 put) (simp add: sample_permissions_def)
qed


lemma Object_entries_sample: "Object_entries sample_selection = [(1, False), (3, True), (4, False)]"
  by (simp add: Object_entries_def impl_of_sample_selection array_index_def)

lemma once_sample:
  "server_rows (applyActionModal spec_server sample_modal_app (world_of (sample_server []))) =
     sample_permissions @
     [\<lparr> p_id = Some 12, p_roleId = 3, p_moduleId = 7, p_actions = [''update''],
        p_visibleFields = Some [], p_editableFields = Some [] \<rparr>]"
proof -
  have g: "am_userId (actionModal sample_modal_app) = Some 5" "(5::int) \<noteq> 0"
    "am_moduleId (actionModal sample_modal_app) = Some 7" "(7::int) \<noteq> 0"
    "am_action (actionModal sample_modal_app) = Some Update"
    by (simp_all add: sample_modal_app_def)
  have h: "sv_rejects (server (world_of (sample_server []))) = []"
    "\<not> sv_reads_fail (server (world_of (sample_server [])))"
    by (simp_all add: world_of_def sample_server_def)
  have sel: "am_selectedRoles (actionModal sample_modal_app) = sample_selection"
    and ps: "permissions sample_modal_app = sample_permissions"
    and srv: "d_permissions (sv_data (server (world_of (sample_server [])))) = sample_permissions"
    by (simp_all add: sample_modal_app_def sample_app_def world_of_def sample_server_def
        dataset_of_def)
  have U: "ids_unique sample_permissions"
    by (simp add: ids_unique_def sample_permissions_def)
  have same: "newActions (p_actions (hd sample_permissions)) ''update'' False =
      p_actions (hd sample_permissions)"
    by (simp add: newActions_def sample_permissions_def)
  have put: "serve_permissions sample_permissions
      (put_permission (p_id (hd sample_permissions)) (hd sample_permissions)) = sample_permissions"
    by (subst serve_put_own [OF U]) (simp_all add: sample_permissions_def)
  have fresh: "fresh_id sample_permissions = 12"
    by (simp add: fresh_id_def sample_permissions_def)
  show ?thesis
    using applyActionModal_spec_server [OF g h]
    by (simp add: sel ps srv Object_entries_sample roleRequests_def sample_index same put
        serve_post fresh)
qed

text \<open>
  Claim C9, as amended. The Apply step is idempotent when every request of both
  applications is answered and the reads of the reload succeed, the ids of the server's
  rows are unique, and the snapshot the first application starts from is the server's
  current permission table. Then applying a selection and, after the reload, applying
  the identical selection again leaves the server's permission rows, the reloaded
  snapshot and the actions list of every row as they were after the first application.
\<close>

theorem apply_twice_same_as_once:
  assumes "sv_rejects (server w) = []" and "\<not> sv_reads_fail (server w)"
    and "ids_unique (d_permissions (sv_data (server w)))"
    and "permissions st = d_permissions (sv_data (server w))"
  shows "server_rows (applyTwice spec_server st w) = server_rows (applyActionModal spec_server st w) \<and>
     permissions (fst (snd (applyTwice spec_server st w))) =
       permissions (fst (snd (applyActionModal spec_server st w))) \<and>
     map p_actions (server_rows (applyTwice spec_server st w)) =
       map p_actions (server_rows (applyActionModal spec_server st w))"
proof (cases "falsy (am_userId (actionModal st)) \<or> falsy (am_moduleId (actionModal st)) \<or>
    am_action (actionModal st) = None")
  case True
  then have "applyActionModal spec_server st w = (Returned, st, w)"
    by (simp add: applyActionModal_def Let_def)
  moreover from this True have "applyTwice spec_server st w = (Returned, st, w)"
    by (simp add: applyTwice_def applyActionModal_def Let_def)
  ultimately show ?thesis by simp
next
  case False
  then obtain u mid a where g: "am_userId (actionModal st) = Some u" "u \<noteq> 0"
    "am_moduleId (actionModal st) = Some mid" "mid \<noteq> 0" "am_action (actionModal st) = Some a"
    by (auto simp: falsy_iff)
  let ?once = "applyActionModal spec_server st w"
  let ?es = "Object_entries (am_selectedRoles (actionModal st))"
  let ?ps = "d_permissions (sv_data (server w))"
  let ?S = "foldl serve_permissions ?ps (concat (map (roleRequests (permMap ?ps) mid a) ?es))"
  let ?st1 = "(fst (snd ?once))\<lparr> actionModal := actionModal st \<rparr>"
  from applyActionModal_spec_server [OF g assms(1,2)] assms(4)
  have s1: "server_rows ?once = ?S" and p1: "permissions (fst (snd ?once)) = ?S"
    and r1: "sv_rejects (server (snd (snd ?once))) = []"
    and f1: "\<not> sv_reads_fail (server (snd (snd ?once)))"
    by simp_all
  from s1 have d1: "d_permissions (sv_data (server (snd (snd ?once)))) = ?S"
    by (simp add: server_rows_def)
  from apply_all_invariant [OF assms(3) distinct_Object_entries, of mid a "am_selectedRoles (actionModal st)"]
  have U: "ids_unique ?S"
    and sel: "\<And>e. e \<in> set ?es \<Longrightarrow> grants (permMap ?S (perm_key (fst e) mid)) a = snd e"
    by blast+
  have again: "foldl serve_permissions ?S (concat (map (roleRequests (permMap ?S) mid a) ?es)) = ?S"
    using U sel by (rule apply_again_all)
  have g1: "am_userId (actionModal ?st1) = Some u" "u \<noteq> 0"
    "am_moduleId (actionModal ?st1) = Some mid" "mid \<noteq> 0" "am_action (actionModal ?st1) = Some a"
    using g by simp_all
  have tw: "applyTwice spec_server st w = applyActionModal spec_server ?st1 (snd (snd ?once))"
    by (simp add: applyTwice_def Let_def)
  from applyActionModal_spec_server [OF g1 r1 f1]
  have s2: "server_rows (applyTwice spec_server st w) = ?S"
    and p2: "permissions (fst (snd (applyTwice spec_server st w))) = ?S"
    by (simp_all add: tw d1 p1 again)
  from s1 p1 s2 p2 show ?thesis by simp
qed

text \<open>
  On the sample page the first application creates a row for role 3 and rewrites the row
  of role 1 with its own content; the second application changes nothing.
\<close>

theorem apply_twice_same_as_once_witness:
  "sv_rejects (server (world_of (sample_server []))) = [] \<and>
   \<not> sv_reads_fail (server (world_of (sample_server []))) \<and>
   ids_unique (d_permissions (sv_data (server (world_of (sample_server []))))) \<and>
   permissions sample_modal_app = d_permissions (sv_data (server (world_of (sample_server [])))) \<and>
   server_rows (applyActionModal spec_server sample_modal_app (world_of (sample_server []))) =
     sample_permissions @
     [\<lparr> p_id = Some 12, p_roleId = 3, p_moduleId = 7, p_actions = [''update''],
        p_visibleFields = Some [], p_editableFields = Some [] \<rparr>] \<and>
   server_rows (applyTwice spec_server sample_modal_app (world_of (sample_server []))) =
     sample_permissions @
     [\<lparr> p_id = Some 12, p_roleId = 3, p_moduleId = 7, p_actions = [''update''],
        p_visibleFields = Some [], p_editableFields = Some [] \<rparr>]"
proof -
  have R: "sv_rejects (server (world_of (sample_server []))) = []"
    and F: "\<not> sv_reads_fail (server (world_of (sample_server [])))"
    by (simp_all add: world_of_def sample_server_def)
  have U: "ids_unique (d_permissions (sv_data (server (world_of (sample_server [])))))"
    by (simp add: ids_unique_def world_of_def sample_server_def dataset_of_def sample_app_def
        sample_permissions_def)
  have P: "permissions sample_modal_app =
      d_permissions (sv_data (server (world_of (sample_server []))))"
    by (simp add: sample_modal_app_def world_of_def sample_server_def dataset_of_def)
  from R F U P once_sample apply_twice_same_as_once [OF R F U P]
  show ?thesis by simp
qed

text \<open>
  Claim C9 as first stated starts from any snapshot and names no condition on the
  network. When the POST of the first application is rejected, the failure is logged
  and the row is missing after once and present after twice. When the snapshot lacks a
  row that the server has, the first application sends nothing for that role and the
  second, on the reloaded snapshot, removes the action.
\<close>

theorem apply_twice_differs_counterexample:
  "permissions role3_modal_app =
     d_permissions (sv_data (server (world_of (sample_server [True])))) \<and>
   sv_rejects (server (world_of (sample_server [True]))) = [True] \<and>
   server_rows (applyActionModal spec_server role3_modal_app (world_of (sample_server [True]))) =
     sample_permissions \<and>
   server_rows (applyTwice spec_server role3_modal_app (world_of (sample_server [True]))) =
     sample_permissions @
     [\<lparr> p_id = Some 12, p_roleId = 3, p_moduleId = 7, p_actions = [''create''],
        p_visibleFields = Some [], p_editableFields = Some [] \<rparr>] \<and>
   sv_rejects (server (world_of (sample_server []))) = [] \<and>
   permissions stale_modal_app = tl (d_permissions (sv_data (server (world_of (sample_server []))))) \<and>
   map p_actions (server_rows (applyActionModal spec_server stale_modal_app
       (world_of (sample_server [])))) = [[''read''], [''read'', ''update'']] \<and>
   map p_actions (server_rows (applyTwice spec_server stale_modal_app
       (world_of (sample_server [])))) = [[], [''read'', ''update'']]"
proof -
  have "permissions role3_modal_app =
      d_permissions (sv_data (server (world_of (sample_server [True]))))"
    and "sv_rejects (server (world_of (sample_server [True]))) = [True]"
    and "sv_rejects (server (world_of (sample_server []))) = []"
    and "permissions stale_modal_app =
      tl (d_permissions (sv_data (server (world_of (sample_server [])))))"
    by (simp_all add: role3_modal_app_def stale_modal_app_def sample_app_def world_of_def
        sample_server_def dataset_of_def)
  with rejected_once_then_accepted stale_snapshot_then_fresh show ?thesis by simp
qed

end
